theory Spec2Isabelle
  imports Complex_Main "HOL-Library.Multiset" "HOL-Library.Log_Nat"
begin

section \<open>Data model\<close>

text \<open>
  A Python \<open>str\<close> is modelled as a \<open>string\<close>, one \<open>char\<close> per code point, so that
  \<open>length\<close> is Python's \<open>len\<close>. Python's unbounded \<open>int\<close> is \<open>int\<close>. A \<open>float\<close>
  is modelled by the real number it denotes; comparisons are exact, and arithmetic on
  floats rounds its exact result to a double (section Floats).
\<close>

text \<open>\<open>llm.ChatMessageIn\<close>\<close>

record ChatMessageIn =
  role :: string
  content :: string

section \<open>Token estimator (\<open>main.py\<close>)\<close>

text \<open>
  \<open>_estimate_tokens_for_messages\<close>: \<open>char_count = sum(len(m.content or "") for m in messages)\<close>,
  then \<open>max(1, math.ceil(char_count / 4))\<close>.
\<close>

definition char_count :: "ChatMessageIn list \<Rightarrow> nat" where
  "char_count messages = sum_list (map (\<lambda>m. length (content m)) messages)"

definition estimate_tokens_for_messages :: "ChatMessageIn list \<Rightarrow> int" where
  "estimate_tokens_for_messages messages = max 1 \<lceil>real (char_count messages) / 4\<rceil>"

text \<open>\<open>_estimate_tokens_for_text\<close>: \<open>max(1, math.ceil(len(text or "") / 4))\<close>.\<close>

definition estimate_tokens_for_text :: "string \<Rightarrow> int" where
  "estimate_tokens_for_text text = max 1 \<lceil>real (length text) / 4\<rceil>"

section \<open>Strings\<close>

text \<open>
  \<open>str.strip()\<close> removes leading and trailing whitespace. \<open>py_isspace\<close> is
  \<open>str.isspace\<close> on the code points below 256: TAB, LF, VT, FF, CR, the separators
  FS, GS, RS, US, the space, NEL and the no-break space.
\<close>

definition py_isspace :: "char \<Rightarrow> bool" where
  "py_isspace c =
     (let n = (of_char c :: nat)
      in (9 \<le> n \<and> n \<le> 13) \<or> (28 \<le> n \<and> n \<le> 31) \<or> n = 32 \<or> n = 133 \<or> n = 160)"

definition strip :: "string \<Rightarrow> string" where
  "strip s = rev (dropWhile py_isspace (rev (dropWhile py_isspace s)))"

section \<open>Floats\<close>

text \<open>
  IEEE 754 double arithmetic: the exact result is rounded to 53 significant bits, to the
  nearest representable value, ties to the even significand. \<open>exponent2 x\<close> is, for
  \<open>x > 0\<close>, the \<open>e\<close> with \<open>2^e \<le> x < 2^(e+1)\<close>, and \<open>pow2 (e - 52)\<close> the distance between
  neighbouring doubles there. The exponent range is taken as unbounded: subnormal results,
  and products of \<open>2^1024\<close> and more, on which \<open>int()\<close> raises \<open>OverflowError\<close>, are outside
  the model.
\<close>

definition round_half_even :: "real \<Rightarrow> int" where
  "round_half_even x =
     (let f = \<lfloor>x\<rfloor>; d = x - real_of_int f
      in if d < 1 / 2 then f else if 1 / 2 < d then f + 1 else if even f then f else f + 1)"

definition pow2 :: "int \<Rightarrow> real" where
  "pow2 k = (if 0 \<le> k then 2 ^ nat k else 1 / 2 ^ nat (- k))"

definition exponent2 :: "real \<Rightarrow> int" where
  "exponent2 x = (if 1 \<le> x then bitlen \<lfloor>x\<rfloor> - 1 else - bitlen (\<lceil>1 / x\<rceil> - 1))"

definition round_double :: "real \<Rightarrow> real" where
  "round_double x =
     (if x = 0 then 0
      else (let a = \<bar>x\<bar>;
                u = pow2 (exponent2 a - 52);
                r = real_of_int (round_half_even (a / u)) * u
            in if x < 0 then - r else r))"

text \<open>
  \<open>int * float\<close> converts the integer to a double and multiplies two doubles.
\<close>

definition py_float_of_int :: "int \<Rightarrow> real" where
  "py_float_of_int i = round_double (real_of_int i)"

definition float_mul :: "real \<Rightarrow> real \<Rightarrow> real" where
  "float_mul x y = round_double (x * y)"

text \<open>Python's \<open>int(x)\<close> of a float: truncation towards zero.\<close>

definition py_int :: "real \<Rightarrow> int" where
  "py_int x = (if 0 \<le> x then \<lfloor>x\<rfloor> else \<lceil>x\<rceil>)"

text \<open>The literal \<open>0.9\<close>: the double nearest to nine tenths.\<close>

definition double_0_9 :: real where
  "double_0_9 = 8106479329266893 / 2 ^ 53"

section \<open>Context settings (\<open>settings.py\<close>, \<open>storage.py\<close>, \<open>main.py\<close>)\<close>

text \<open>\<open>settings.Settings\<close>, the process configuration read from the environment.\<close>

record Settings =
  aigent_tenant_id :: string
  ollama_base_url :: string
  ollama_model :: string
  ollama_context_window :: int
  ollama_max_response_tokens :: int
  chat_db_path :: string
  default_agent_id :: string

text \<open>
  \<open>settings._int_env\<close>: the environment value is absent (\<open>None\<close>), not an integer
  (\<open>Some None\<close>) or an integer; anything below \<open>min_value\<close> gives the default.
\<close>

definition int_env :: "int option option \<Rightarrow> int \<Rightarrow> int \<Rightarrow> int" where
  "int_env raw default_value min_value =
     (case raw of
        None \<Rightarrow> default_value
      | Some None \<Rightarrow> default_value
      | Some (Some v) \<Rightarrow> if v < min_value then default_value else v)"

text \<open>
  \<open>storage.StoredContextSettings\<close>: one row of the table \<open>prompt_context_settings\<close>,
  whose primary key is the tenant id. Timestamps are clock readings, as natural numbers.
\<close>

record StoredContextSettings =
  cs_tenant_id :: string
  max_context_tokens :: int
  max_response_tokens :: int
  compact_trigger_pct :: real
  compact_instructions :: string
  cs_updated_at :: nat

type_synonym context_table = "string \<rightharpoonup> StoredContextSettings"

definition default_compaction_instructions :: string where
  "default_compaction_instructions =
     ''If the conversation is approaching context limits, prioritize preserving the user's latest objective, ''
     @ ''decisions, constraints, and unresolved questions. Summarize older turns into concise bullet points and ''
     @ ''drop low-value details, while keeping critical facts and commitments intact.''"

text \<open>
  \<open>ChatStore.ensure_context_settings\<close>: insert the row when the tenant has none; replace
  stored instructions that are blank after trimming by the default text; otherwise return
  the row as stored. The model reads the clock once per store operation.
\<close>

definition ensure_context_settings ::
  "context_table \<Rightarrow> string \<Rightarrow> int \<Rightarrow> int \<Rightarrow> real \<Rightarrow> nat \<Rightarrow> StoredContextSettings \<times> context_table"
where
  "ensure_context_settings tbl tenant max_ctx max_resp pct now =
     (case tbl tenant of
        None \<Rightarrow>
          (let created = \<lparr>cs_tenant_id = tenant, max_context_tokens = max_ctx,
                           max_response_tokens = max_resp, compact_trigger_pct = pct,
                           compact_instructions = default_compaction_instructions,
                           cs_updated_at = now\<rparr>
           in (created, tbl(tenant \<mapsto> created)))
      | Some row \<Rightarrow>
          if strip (compact_instructions row) = []
          then (let fixed = row\<lparr>compact_instructions := default_compaction_instructions,
                                 cs_updated_at := now\<rparr>
                in (fixed, tbl(tenant \<mapsto> fixed)))
          else (row, tbl))"

text \<open>
  \<open>ChatStore.update_context_settings\<close>: every argument that is \<open>None\<close> keeps the current
  value; the row is read back through \<open>ensure_context_settings\<close>.
\<close>

definition update_context_settings ::
  "context_table \<Rightarrow> string \<Rightarrow> int option \<Rightarrow> int option \<Rightarrow> real option \<Rightarrow> string option \<Rightarrow> nat
     \<Rightarrow> StoredContextSettings \<times> context_table"
where
  "update_context_settings tbl tenant max_ctx max_resp pct instr now =
     (let (current, tbl1) = ensure_context_settings tbl tenant 4096 512 double_0_9 now;
          updated = current\<lparr>
            max_context_tokens := (case max_ctx of Some v \<Rightarrow> v | None \<Rightarrow> max_context_tokens current),
            max_response_tokens := (case max_resp of Some v \<Rightarrow> v | None \<Rightarrow> max_response_tokens current),
            compact_trigger_pct := (case pct of Some v \<Rightarrow> v | None \<Rightarrow> compact_trigger_pct current),
            compact_instructions := (case instr of Some v \<Rightarrow> v | None \<Rightarrow> compact_instructions current),
            cs_updated_at := now\<rparr>
      in ensure_context_settings (tbl1(tenant \<mapsto> updated)) tenant 4096 512 double_0_9 now)"

text \<open>
  \<open>main._get_context_settings\<close>: the stored window and response limit are re-synchronised
  to the configured ones on every read. \<open>default_pct\<close> is the value of
  \<open>_default_compact_trigger()\<close>, read from the agent's YAML file.
\<close>

definition get_context_settings ::
  "Settings \<Rightarrow> real \<Rightarrow> nat \<Rightarrow> context_table \<Rightarrow> StoredContextSettings \<times> context_table"
where
  "get_context_settings env default_pct now tbl =
     (let (current, tbl1) =
            ensure_context_settings tbl (aigent_tenant_id env) (ollama_context_window env)
              (ollama_max_response_tokens env) default_pct now
      in if max_context_tokens current \<noteq> ollama_context_window env
            \<or> max_response_tokens current \<noteq> ollama_max_response_tokens env
         then update_context_settings tbl1 (aigent_tenant_id env)
                (Some (ollama_context_window env)) (Some (ollama_max_response_tokens env))
                None None now
         else (current, tbl1))"

section \<open>Context compaction of a chat turn (\<open>main.chat\<close>)\<close>

text \<open>\<open>storage.StoredMessage\<close>\<close>

record StoredMessage =
  msg_id :: string
  msg_role :: string
  msg_content :: string
  msg_created_at :: nat

text \<open>\<open>list.insert(i, x)\<close> for \<open>i \<ge> 0\<close>; an index beyond the end appends.\<close>

definition insert_at :: "nat \<Rightarrow> 'a \<Rightarrow> 'a list \<Rightarrow> 'a list" where
  "insert_at i x xs = take i xs @ x # drop i xs"

text \<open>
  \<open>list.pop(i)\<close> for \<open>0 \<le> i < len\<close>, the list that remains. Out of range Python
  raises \<open>IndexError\<close>; the only call, \<open>pop(2)\<close>, is guarded by \<open>len(llm_messages) > 2\<close>.
\<close>

definition pop_at :: "nat \<Rightarrow> 'a list \<Rightarrow> 'a list" where
  "pop_at i xs = take i xs @ drop (Suc i) xs"

definition system_message :: "string \<Rightarrow> ChatMessageIn" where
  "system_message text = \<lparr>role = ''system'', content = text\<rparr>"

text \<open>
  \<open>history_messages\<close>: the stored messages whose role is \<open>user\<close> or \<open>assistant\<close>, in
  stored order.
\<close>

definition history_messages :: "StoredMessage list \<Rightarrow> ChatMessageIn list" where
  "history_messages history =
     map (\<lambda>m. \<lparr>role = msg_role m, content = msg_content m\<rparr>)
       (filter (\<lambda>m. msg_role m \<in> {''user'', ''assistant''}) history)"

text \<open>
  The state of the compaction: the message list, whether the instructions were inserted,
  the threshold, the estimate before, and the counter of dropped messages.
\<close>

record compaction =
  llm_messages :: "ChatMessageIn list"
  compaction_applied :: bool
  compact_threshold :: int
  est_prompt_tokens_before :: int
  dropped_history_messages :: int

text \<open>
  The first half of the compaction in \<open>chat\<close>: build the list, compute the estimate and
  the threshold \<open>int(max_context_tokens * compact_trigger_pct)\<close>, a product of doubles, and
  insert the trimmed
  instructions at index 1 when they are not blank and the estimate reaches the threshold.
\<close>

definition assemble_messages :: "string \<Rightarrow> StoredMessage list \<Rightarrow> StoredContextSettings \<Rightarrow> compaction" where
  "assemble_messages effective_prompt history cs =
     (let msgs = system_message effective_prompt # history_messages history;
          before = estimate_tokens_for_messages msgs;
          threshold = py_int (float_mul (py_float_of_int (max_context_tokens cs))
                                (compact_trigger_pct cs))
      in if strip (compact_instructions cs) \<noteq> [] \<and> before \<ge> threshold
         then \<lparr>llm_messages = insert_at 1 (system_message (strip (compact_instructions cs))) msgs,
               compaction_applied = True, compact_threshold = threshold,
               est_prompt_tokens_before = before, dropped_history_messages = 0\<rparr>
         else \<lparr>llm_messages = msgs,
               compaction_applied = False, compact_threshold = threshold,
               est_prompt_tokens_before = before, dropped_history_messages = 0\<rparr>)"

text \<open>
  The loop \<open>while len(llm_messages) > 2 and estimate > max_context_tokens\<close>, with body
  \<open>llm_messages.pop(2); dropped_history_messages += 1\<close>.
\<close>

function drop_loop :: "int \<Rightarrow> ChatMessageIn list \<Rightarrow> int \<Rightarrow> ChatMessageIn list \<times> int" where
  "drop_loop max_tokens msgs dropped =
     (if length msgs > 2 \<and> estimate_tokens_for_messages msgs > max_tokens
      then drop_loop max_tokens (pop_at 2 msgs) (dropped + 1)
      else (msgs, dropped))"
  by pat_completeness auto
termination
  by (relation "measure (\<lambda>(m, msgs, d). length msgs)") (auto simp: pop_at_def)

declare drop_loop.simps [simp del]

text \<open>The whole compaction of one chat turn, with \<open>est_prompt_tokens_after\<close>.\<close>

definition compact_context :: "string \<Rightarrow> StoredMessage list \<Rightarrow> StoredContextSettings \<Rightarrow> compaction \<times> int" where
  "compact_context effective_prompt history cs =
     (let a = assemble_messages effective_prompt history cs;
          (msgs, dropped) = drop_loop (max_context_tokens cs) (llm_messages a) (dropped_history_messages a);
          c = a\<lparr>llm_messages := msgs, dropped_history_messages := dropped\<rparr>
      in (c, estimate_tokens_for_messages msgs))"

text \<open>The guard of that loop.\<close>

definition loop_continues :: "int \<Rightarrow> ChatMessageIn list \<Rightarrow> bool" where
  "loop_continues max_tokens msgs \<longleftrightarrow>
     2 < length msgs \<and> max_tokens < estimate_tokens_for_messages msgs"

section \<open>Prompt profiles and overrides (\<open>storage.py\<close>)\<close>

text \<open>
  A row of the table \<open>prompt_profiles\<close>. The table is the list of its rows in insertion
  order; \<open>id\<close> is its primary key. A query with \<open>LIMIT 1\<close> and no ordering is modelled
  as the first matching row.
\<close>

record profile_row =
  pp_id :: string
  pp_tenant_id :: string
  pp_name :: string
  pp_is_default :: bool
  pp_is_active :: bool
  pp_created_at :: nat
  pp_updated_at :: nat

text \<open>\<open>storage.StoredPromptProfile\<close>\<close>

record StoredPromptProfile =
  sp_id :: string
  sp_tenant_id :: string
  sp_name :: string
  sp_is_default :: bool
  sp_is_active :: bool
  sp_updated_at :: nat

text \<open>
  A row of \<open>prompt_component_overrides\<close>, which is unique per profile and component: the
  table is a map from that pair. Both patched fields are nullable.
\<close>

record override_row =
  ov_id :: string
  ov_content :: "string option"
  ov_enabled :: "bool option"
  ov_updated_at :: nat

record prompt_store =
  profiles :: "profile_row list"
  overrides :: "string \<times> string \<rightharpoonup> override_row"

definition stored_profile :: "profile_row \<Rightarrow> StoredPromptProfile" where
  "stored_profile r =
     \<lparr>sp_id = pp_id r, sp_tenant_id = pp_tenant_id r, sp_name = pp_name r,
      sp_is_default = pp_is_default r, sp_is_active = pp_is_active r,
      sp_updated_at = pp_updated_at r\<rparr>"

text \<open>\<open>UPDATE prompt_profiles SET is_active = 0 WHERE tenant_id = ?\<close>\<close>

definition deactivate_tenant :: "string \<Rightarrow> profile_row list \<Rightarrow> profile_row list" where
  "deactivate_tenant tenant rows =
     map (\<lambda>r. if pp_tenant_id r = tenant then r\<lparr>pp_is_active := False\<rparr> else r) rows"

text \<open>
  \<open>ChatStore.ensure_default_prompt_profile\<close>: when the tenant has a default profile that
  is not active, every profile of the tenant is deactivated and the default one activated;
  when it has none, one is inserted, active. \<open>fresh\<close> is the identifier that \<open>uuid4\<close>
  would give.
\<close>

definition ensure_default_prompt_profile ::
  "profile_row list \<Rightarrow> string \<Rightarrow> string \<Rightarrow> nat \<Rightarrow> StoredPromptProfile \<times> profile_row list"
where
  "ensure_default_prompt_profile rows tenant fresh now =
     (case find (\<lambda>r. pp_tenant_id r = tenant \<and> pp_is_default r) rows of
        Some existing \<Rightarrow>
          (let rows' =
                 (if \<not> pp_is_active existing
                  then map (\<lambda>r. if pp_id r = pp_id existing then r\<lparr>pp_is_active := True\<rparr> else r)
                         (deactivate_tenant tenant rows)
                  else rows)
           in ((stored_profile existing)\<lparr>sp_is_active := True\<rparr>, rows'))
      | None \<Rightarrow>
          (let created = \<lparr>pp_id = fresh, pp_tenant_id = tenant, pp_name = ''Default'',
                           pp_is_default = True, pp_is_active = True,
                           pp_created_at = now, pp_updated_at = now\<rparr>
           in (stored_profile created, rows @ [created])))"

datatype py_error = TypeError

text \<open>
  \<open>ChatStore.get_active_prompt_profile\<close>: it first calls
  \<open>ensure_default_prompt_profile\<close>, then reads the first active profile of the tenant.
  Subscripting a missing row would raise \<open>TypeError\<close>.
\<close>

definition get_active_prompt_profile ::
  "profile_row list \<Rightarrow> string \<Rightarrow> string \<Rightarrow> nat \<Rightarrow> (py_error + StoredPromptProfile) \<times> profile_row list"
where
  "get_active_prompt_profile rows tenant fresh now =
     (let (d, rows') = ensure_default_prompt_profile rows tenant fresh now
      in (case find (\<lambda>r. pp_tenant_id r = tenant \<and> pp_is_active r) rows' of
            None \<Rightarrow> Inl TypeError
          | Some r \<Rightarrow> Inr (stored_profile r),
          rows'))"

text \<open>\<open>ChatStore.activate_prompt_profile\<close>\<close>

definition activate_prompt_profile ::
  "profile_row list \<Rightarrow> string \<Rightarrow> string \<Rightarrow> nat \<Rightarrow> bool \<times> profile_row list"
where
  "activate_prompt_profile rows tenant profile_id now =
     (case find (\<lambda>r. pp_id r = profile_id \<and> pp_tenant_id r = tenant) rows of
        None \<Rightarrow> (False, rows)
      | Some _ \<Rightarrow>
          (True,
           map (\<lambda>r. if pp_id r = profile_id
                     then r\<lparr>pp_is_active := True, pp_updated_at := now\<rparr> else r)
             (deactivate_tenant tenant rows)))"

text \<open>\<open>models.PromptProfileResponse\<close>\<close>

record PromptProfileResponse =
  resp_id :: string
  resp_name :: string
  resp_is_active :: bool
  resp_is_default :: bool

datatype api_error = ValidationError | NotFound | Unhandled py_error

text \<open>
  The handler \<open>activate_prompt_profile\<close> of \<open>main.py\<close>: 404 when the store reports
  failure; otherwise the response is the profile that \<open>get_active_prompt_profile\<close>
  returns. An exception that no handler catches becomes a 500 response.
\<close>

definition activate_endpoint ::
  "profile_row list \<Rightarrow> string \<Rightarrow> string \<Rightarrow> string \<Rightarrow> nat
     \<Rightarrow> (api_error + PromptProfileResponse) \<times> profile_row list"
where
  "activate_endpoint rows tenant profile_id fresh now =
     (let (ok, rows1) = activate_prompt_profile rows tenant profile_id now
      in if \<not> ok then (Inl NotFound, rows1)
         else (let (active, rows2) = get_active_prompt_profile rows1 tenant fresh now
               in (case active of
                     Inl e \<Rightarrow> Inl (Unhandled e)
                   | Inr p \<Rightarrow> Inr \<lparr>resp_id = sp_id p, resp_name = sp_name p,
                                     resp_is_active = sp_is_active p,
                                     resp_is_default = sp_is_default p\<rparr>,
                   rows2)))"

text \<open>The active profiles of a tenant.\<close>

definition active_profiles :: "string \<Rightarrow> profile_row list \<Rightarrow> profile_row list" where
  "active_profiles tenant rows = filter (\<lambda>r. pp_tenant_id r = tenant \<and> pp_is_active r) rows"

definition example_profile :: "string \<Rightarrow> bool \<Rightarrow> bool \<Rightarrow> profile_row" where
  "example_profile i d a =
     \<lparr>pp_id = i, pp_tenant_id = ''default'', pp_name = i, pp_is_default = d, pp_is_active = a,
      pp_created_at = 0, pp_updated_at = 0\<rparr>"

section \<open>Updating the context settings (\<open>models.py\<close>, \<open>main.py\<close>)\<close>

text \<open>
  \<open>models.ContextSettingsUpdateRequest\<close>: four optional fields. The bounds are those of
  the \<open>Field\<close> declarations: \<open>ge=256, le=262144\<close>, \<open>ge=16, le=262144\<close> and
  \<open>ge=0.1, le=1.0\<close>; the instructions are unconstrained. The bound \<open>0.1\<close> is the double
  nearest to one tenth, which lies just above it and is the least double that is not below
  one tenth: for the value of a double, the comparison with one tenth gives the same
  result.
\<close>

record ContextSettingsUpdateRequest =
  req_max_context_tokens :: "int option"
  req_max_response_tokens :: "int option"
  req_compact_trigger_pct :: "real option"
  req_compact_instructions :: "string option"

definition field_in_range :: "'a::linorder \<Rightarrow> 'a \<Rightarrow> 'a option \<Rightarrow> bool" where
  "field_in_range lo hi v = (case v of None \<Rightarrow> True | Some x \<Rightarrow> lo \<le> x \<and> x \<le> hi)"

text \<open>
  The validation the framework runs on the request body before the handler is called: a
  field outside its bounds rejects the request.
\<close>

definition validate_update_request ::
  "ContextSettingsUpdateRequest \<Rightarrow> api_error + ContextSettingsUpdateRequest"
where
  "validate_update_request payload =
     (if field_in_range 256 262144 (req_max_context_tokens payload)
         \<and> field_in_range 16 262144 (req_max_response_tokens payload)
         \<and> field_in_range (1 / 10) 1 (req_compact_trigger_pct payload)
      then Inr payload else Inl ValidationError)"

text \<open>
  The handler \<open>update_context_settings\<close> of \<open>PATCH /api/prompts/context-settings\<close>: the
  window written is always the configured one, the other three fields come from the
  request. It returns the response (the settings read back) and the table.
\<close>

definition patch_context_settings ::
  "Settings \<Rightarrow> nat \<Rightarrow> context_table \<Rightarrow> ContextSettingsUpdateRequest
     \<Rightarrow> (api_error + StoredContextSettings) \<times> context_table"
where
  "patch_context_settings env now tbl body =
     (case validate_update_request body of
        Inl e \<Rightarrow> (Inl e, tbl)
      | Inr payload \<Rightarrow>
          (let (current, tbl') =
                 update_context_settings tbl (aigent_tenant_id env)
                   (Some (ollama_context_window env)) (req_max_response_tokens payload)
                   (req_compact_trigger_pct payload) (req_compact_instructions payload) now
           in (Inr current, tbl')))"

section \<open>Prompt composer (\<open>prompts.py\<close>)\<close>

text \<open>\<open>prompts.PromptComponent\<close>; every field is required by the constructor.\<close>

record PromptComponent =
  pc_id :: string
  pc_name :: string
  pc_file_path :: string
  pc_content :: string
  pc_order :: int
  pc_enabled :: bool
  pc_is_system :: bool

definition fallback_prompt :: string where
  "fallback_prompt = ''You are a helpful local AI assistant.''"

text \<open>\<open>sep.join(parts)\<close>\<close>

fun join_str :: "string \<Rightarrow> string list \<Rightarrow> string" where
  "join_str sep [] = []"
| "join_str sep [x] = x"
| "join_str sep (x # y # ys) = x @ sep @ join_str sep (y # ys)"

text \<open>The separator \<open>"\n\n"\<close>: two line feeds, an empty line between two parts.\<close>

definition blank_line :: string where
  "blank_line = [CHR 0x0A, CHR 0x0A]"

text \<open>
  \<open>compose_system_prompt\<close>: the comprehension runs over \<open>sorted(components, key=order)\<close>,
  a stable sort, as \<open>sort_key\<close> is.
\<close>

definition compose_system_prompt :: "PromptComponent list \<Rightarrow> string" where
  "compose_system_prompt components =
     (let enabled = [strip (pc_content c).
                       c \<leftarrow> sort_key pc_order components,
                       pc_enabled c \<and> strip (pc_content c) \<noteq> []]
      in if enabled = [] then fallback_prompt else join_str blank_line enabled)"

text \<open>A component survives the filter when it is enabled and not blank.\<close>

definition survives :: "PromptComponent \<Rightarrow> bool" where
  "survives c \<longleftrightarrow> pc_enabled c \<and> strip (pc_content c) \<noteq> []"

definition example_component :: "string \<Rightarrow> int \<Rightarrow> bool \<Rightarrow> string \<Rightarrow> PromptComponent" where
  "example_component i n e text =
     \<lparr>pc_id = i, pc_name = i @ ''.md'', pc_file_path = ''/prompts/'' @ i @ ''.md'',
      pc_content = text, pc_order = n, pc_enabled = e, pc_is_system = True\<rparr>"

section \<open>Effective prompt components (\<open>storage.py\<close>, \<open>main.py\<close>)\<close>

text \<open>
  \<open>ChatStore.get_prompt_overrides\<close>: the overrides of one profile, as a dictionary from
  the component id to its \<open>content\<close> and \<open>enabled\<close> entries.
\<close>

record prompt_override =
  o_content :: "string option"
  o_enabled :: "bool option"

definition get_prompt_overrides :: "prompt_store \<Rightarrow> string \<Rightarrow> (string \<rightharpoonup> prompt_override)" where
  "get_prompt_overrides st profile_id =
     (\<lambda>component_id.
        map_option (\<lambda>r. \<lparr>o_content = ov_content r, o_enabled = ov_enabled r\<rparr>)
          (overrides st (profile_id, component_id)))"

text \<open>\<open>UPDATE prompt_profiles SET updated_at = ? WHERE id = ?\<close>\<close>

definition touch_profile :: "string \<Rightarrow> nat \<Rightarrow> profile_row list \<Rightarrow> profile_row list" where
  "touch_profile profile_id now rows =
     map (\<lambda>r. if pp_id r = profile_id then r\<lparr>pp_updated_at := now\<rparr> else r) rows"

text \<open>
  \<open>ChatStore.upsert_prompt_override\<close>: insert the row, or update it with
  \<open>COALESCE(new, old)\<close> on both patched fields.
\<close>

definition upsert_prompt_override ::
  "prompt_store \<Rightarrow> string \<Rightarrow> string \<Rightarrow> string option \<Rightarrow> bool option \<Rightarrow> string \<Rightarrow> nat \<Rightarrow> prompt_store"
where
  "upsert_prompt_override st profile_id component_id new_content new_enabled fresh now =
     (let row =
            (case overrides st (profile_id, component_id) of
               None \<Rightarrow> \<lparr>ov_id = fresh, ov_content = new_content, ov_enabled = new_enabled,
                          ov_updated_at = now\<rparr>
             | Some r \<Rightarrow>
                 r\<lparr>ov_content := (case new_content of Some c \<Rightarrow> Some c | None \<Rightarrow> ov_content r),
                    ov_enabled := (case new_enabled of Some e \<Rightarrow> Some e | None \<Rightarrow> ov_enabled r),
                    ov_updated_at := now\<rparr>)
      in st\<lparr>overrides := (overrides st)((profile_id, component_id) \<mapsto> row),
             profiles := touch_profile profile_id now (profiles st)\<rparr>)"

text \<open>
  \<open>ChatStore.reset_prompt_profile\<close>:
  \<open>DELETE FROM prompt_component_overrides WHERE profile_id = ?\<close>.
\<close>

definition reset_prompt_profile :: "prompt_store \<Rightarrow> string \<Rightarrow> nat \<Rightarrow> prompt_store" where
  "reset_prompt_profile st profile_id now =
     st\<lparr>overrides := (\<lambda>key. if fst key = profile_id then None else overrides st key),
        profiles := touch_profile profile_id now (profiles st)\<rparr>"

text \<open>
  The constructor of the dataclass \<open>PromptComponent\<close>, called with keyword arguments:
  every field is required, and a call that leaves one out raises \<open>TypeError\<close>.
\<close>

definition new_PromptComponent ::
  "string option \<Rightarrow> string option \<Rightarrow> string option \<Rightarrow> string option \<Rightarrow> int option
     \<Rightarrow> bool option \<Rightarrow> bool option \<Rightarrow> py_error + PromptComponent"
where
  "new_PromptComponent kw_id kw_name kw_file_path kw_content kw_order kw_enabled kw_is_system =
     (case (kw_id, kw_name, kw_file_path, kw_content, kw_order, kw_enabled, kw_is_system) of
        (Some i, Some n, Some f, Some c, Some ord, Some e, Some s) \<Rightarrow>
          Inr \<lparr>pc_id = i, pc_name = n, pc_file_path = f, pc_content = c, pc_order = ord,
               pc_enabled = e, pc_is_system = s\<rparr>
      | _ \<Rightarrow> Inl TypeError)"

text \<open>
  The loop of \<open>_effective_prompt_components\<close>. A default without an override is appended
  as it is. For one with an override the source calls \<open>item.__class__\<close> with \<open>id\<close>,
  \<open>name\<close>, \<open>content\<close>, \<open>order\<close>, \<open>enabled\<close> and \<open>is_system\<close>, and without
  \<open>file_path\<close>.
\<close>

fun merge_components ::
  "(string \<rightharpoonup> prompt_override) \<Rightarrow> PromptComponent list \<Rightarrow> PromptComponent list
     \<Rightarrow> py_error + PromptComponent list"
where
  "merge_components ovs [] merged = Inr merged"
| "merge_components ovs (item # rest) merged =
     (case ovs (pc_id item) of
        None \<Rightarrow> merge_components ovs rest (merged @ [item])
      | Some ov \<Rightarrow>
          (case new_PromptComponent (Some (pc_id item)) (Some (pc_name item)) None
                  (Some (case o_content ov of Some c \<Rightarrow> c | None \<Rightarrow> pc_content item))
                  (Some (pc_order item))
                  (Some (case o_enabled ov of Some e \<Rightarrow> e | None \<Rightarrow> pc_enabled item))
                  (Some (pc_is_system item)) of
             Inl err \<Rightarrow> Inl err
           | Inr c \<Rightarrow> merge_components ovs rest (merged @ [c])))"

text \<open>
  \<open>_effective_prompt_components\<close>; \<open>defaults\<close> is what \<open>load_prompt_components\<close> reads
  from the prompt files.
\<close>

definition effective_prompt_components ::
  "PromptComponent list \<Rightarrow> prompt_store \<Rightarrow> string \<Rightarrow> string \<Rightarrow> nat
     \<Rightarrow> (py_error + StoredPromptProfile \<times> PromptComponent list) \<times> prompt_store"
where
  "effective_prompt_components defaults st tenant fresh now =
     (let (active, rows) = get_active_prompt_profile (profiles st) tenant fresh now;
          st1 = st\<lparr>profiles := rows\<rparr>
      in (case active of
            Inl err \<Rightarrow> Inl err
          | Inr profile \<Rightarrow>
              (case merge_components (get_prompt_overrides st1 (sp_id profile)) defaults [] of
                 Inl err \<Rightarrow> Inl err
               | Inr merged \<Rightarrow> Inr (profile, merged)),
          st1))"

text \<open>
  The composed system prompt of a request, as \<open>chat\<close> and \<open>get_system_prompt\<close> compute
  it: \<open>compose_system_prompt\<close> of the effective components.
\<close>

definition effective_system_prompt ::
  "PromptComponent list \<Rightarrow> prompt_store \<Rightarrow> string \<Rightarrow> string \<Rightarrow> nat \<Rightarrow> py_error + string"
where
  "effective_system_prompt defaults st tenant fresh now =
     (case fst (effective_prompt_components defaults st tenant fresh now) of
        Inl err \<Rightarrow> Inl err
      | Inr (profile, components) \<Rightarrow> Inr (compose_system_prompt components))"

text \<open>
  The handler \<open>update_prompt_component\<close>: the override is stored for the active profile
  before the effective components are computed again for the response.
\<close>

definition update_prompt_component ::
  "PromptComponent list \<Rightarrow> prompt_store \<Rightarrow> string \<Rightarrow> string \<Rightarrow> string option \<Rightarrow> bool option
     \<Rightarrow> string \<Rightarrow> nat \<Rightarrow> (api_error + PromptComponent) \<times> prompt_store"
where
  "update_prompt_component defaults st tenant component_id new_content new_enabled fresh now =
     (if component_id \<notin> pc_id ` set defaults then (Inl NotFound, st)
      else
        (let (active, rows) = get_active_prompt_profile (profiles st) tenant fresh now;
             st1 = st\<lparr>profiles := rows\<rparr>
         in (case active of
               Inl err \<Rightarrow> (Inl (Unhandled err), st1)
             | Inr profile \<Rightarrow>
                 (let st2 = upsert_prompt_override st1 (sp_id profile) component_id
                              new_content new_enabled fresh now;
                      (eff, st3) = effective_prompt_components defaults st2 tenant fresh now
                  in (case eff of
                        Inl err \<Rightarrow> (Inl (Unhandled err), st3)
                      | Inr (p, components) \<Rightarrow>
                          (case find (\<lambda>c. pc_id c = component_id) components of
                             None \<Rightarrow> (Inl NotFound, st3)
                           | Some c \<Rightarrow> (Inr c, st3)))))))"

text \<open>The handler \<open>reset_prompts\<close>: reset the active profile.\<close>

definition reset_prompts ::
  "prompt_store \<Rightarrow> string \<Rightarrow> string \<Rightarrow> nat \<Rightarrow> (api_error + string) \<times> prompt_store"
where
  "reset_prompts st tenant fresh now =
     (let (active, rows) = get_active_prompt_profile (profiles st) tenant fresh now;
          st1 = st\<lparr>profiles := rows\<rparr>
      in (case active of
            Inl err \<Rightarrow> (Inl (Unhandled err), st1)
          | Inr profile \<Rightarrow> (Inr (sp_id profile), reset_prompt_profile st1 (sp_id profile) now)))"

definition example_defaults :: "PromptComponent list" where
  "example_defaults =
     [example_component ''a'' 0 True ''Alpha'', example_component ''b'' 1 True ''Beta'']"

definition example_store :: prompt_store where
  "example_store = \<lparr>profiles = [example_profile ''d'' True True], overrides = Map.empty\<rparr>"

definition example_overridden :: prompt_store where
  "example_overridden =
     \<lparr>profiles = [(example_profile ''d'' True True)\<lparr>pp_updated_at := 2\<rparr>],
      overrides = Map.empty((''d'', ''a'') \<mapsto>
        \<lparr>ov_id = ''n2'', ov_content = None, ov_enabled = Some False, ov_updated_at = 2\<rparr>)\<rparr>"

section \<open>Baseline results (\<open>models.py\<close>, \<open>llm.py\<close>)\<close>

text \<open>\<open>llm.ChatCompletionResult\<close>\<close>

record ChatCompletionResult =
  cr_content :: string
  cr_latency_ms :: int
  cr_prompt_tokens :: "int option"
  cr_completion_tokens :: "int option"
  cr_total_tokens :: "int option"

text \<open>\<open>models.BaselineCaseResult\<close>\<close>

record BaselineCaseResult =
  bc_id :: string
  bc_label :: string
  bc_calls :: int
  bc_input_tokens_est :: int
  bc_prompt_tokens :: int
  bc_completion_tokens :: int
  bc_total_tokens :: int
  bc_total_latency_ms :: int
  bc_avg_latency_ms :: real
  bc_min_latency_ms :: "int option"
  bc_max_latency_ms :: "int option"
  bc_per_turn_latency_ms :: "int list option"
  bc_per_turn_prompt_tokens :: "int list option"
  bc_per_turn_completion_tokens :: "int list option"

text \<open>\<open>models.BaselineCategoryResult\<close>\<close>

record BaselineCategoryResult =
  cat_id :: string
  cat_label :: string
  cat_cases :: "BaselineCaseResult list"

text \<open>\<open>models.BaselineRunResponse\<close>\<close>

record BaselineRunResponse =
  run_model :: string
  run_started_at :: nat
  run_completed_at :: nat
  run_duration_ms :: int
  run_total_calls :: int
  run_categories :: "BaselineCategoryResult list"

section \<open>Baseline jobs: progress (\<open>main.py\<close>)\<close>

text \<open>
  An entry of the job table \<open>_baseline_jobs\<close>: the dictionary built by \<open>start_baseline\<close>,
  as a record.
\<close>

record baseline_job =
  job_status :: string
  job_model :: string
  total_calls :: int
  completed_calls :: int
  current_step :: "string option"
  started_at :: nat
  updated_at :: nat
  completed_at :: "nat option"
  duration_ms :: "int option"
  events :: "string list"
  job_error :: "string option"
  job_result :: "BaselineRunResponse option"
  enforce_max_response_tokens :: bool

text \<open>\<open>_baseline_total_calls\<close>\<close>

definition baseline_total_calls :: int where
  "baseline_total_calls = 34"

text \<open>
  \<open>_append_baseline_event\<close>: append, then keep the last 100 entries
  (\<open>del events[:-100]\<close>).
\<close>

definition append_baseline_event :: "baseline_job \<Rightarrow> string \<Rightarrow> nat \<Rightarrow> baseline_job" where
  "append_baseline_event job message now =
     (let evs = events job @ [message];
          evs' = (if length evs > 100 then drop (length evs - 100) evs else evs)
      in job\<lparr>events := evs', updated_at := now\<rparr>)"

text \<open>\<open>_baseline_progress\<close>\<close>

definition baseline_progress :: "baseline_job \<Rightarrow> string \<Rightarrow> int \<Rightarrow> nat \<Rightarrow> baseline_job" where
  "baseline_progress job step completed_inc now =
     (let job1 = job\<lparr>current_step := Some step\<rparr>;
          job2 = (if completed_inc > 0
                  then append_baseline_event
                         (job1\<lparr>completed_calls :=
                                 min (total_calls job1) (completed_calls job1 + completed_inc)\<rparr>)
                         (''Completed: '' @ step) now
                  else append_baseline_event job1 (''Running: '' @ step) now)
      in job2\<lparr>updated_at := now\<rparr>)"

text \<open>The entry that \<open>start_baseline\<close> stores, after its mode event.\<close>

definition start_baseline_job :: "string \<Rightarrow> bool \<Rightarrow> nat \<Rightarrow> baseline_job" where
  "start_baseline_job model enforce now =
     append_baseline_event
       \<lparr>job_status = ''running'', job_model = model, total_calls = baseline_total_calls,
        completed_calls = 0, current_step = Some ''Initializing'', started_at = now,
        updated_at = now, completed_at = None, duration_ms = None,
        events = [''Baseline run started''], job_error = None, job_result = None,
        enforce_max_response_tokens = enforce\<rparr>
       (if enforce then ''Mode: enforcing max response tokens''
        else ''Mode: no max response token cap'') now"

text \<open>
  The progress callbacks of a run, in order: each is a step label, an increment and the
  clock reading at the call.
\<close>

fun progress_calls :: "baseline_job \<Rightarrow> (string \<times> int \<times> nat) list \<Rightarrow> baseline_job" where
  "progress_calls job [] = job"
| "progress_calls job ((step, inc, now) # rest) =
     progress_calls (baseline_progress job step inc now) rest"

section \<open>Baseline orchestrator (\<open>main.py\<close>)\<close>

text \<open>\<open>str(n)\<close> of a natural number, in decimal; \<open>str(i)\<close> of an integer.\<close>

function str_nat :: "nat \<Rightarrow> string" where
  "str_nat n = (if n < 10 then [char_of (48 + n)] else str_nat (n div 10) @ [char_of (48 + n mod 10)])"
  by pat_completeness auto
termination
  by (relation "measure (\<lambda>n. n)") auto

declare str_nat.simps [simp del]

definition str_int :: "int \<Rightarrow> string" where
  "str_int i = (if i < 0 then ''-'' @ str_nat (nat (- i)) else str_nat (nat i))"

text \<open>
  \<open>_build_user_payload\<close>: the fragment is appended until the estimate reaches the
  target. The fragment is never empty, so the loop ends.
\<close>

definition user_fragment :: "string \<Rightarrow> string" where
  "user_fragment seed =
     seed @ ''. Keep this coherent, factual, and concise. ''
          @ ''Include clear constraints, concrete details, and specific wording. ''"

function user_payload_loop :: "int \<Rightarrow> string \<Rightarrow> string \<Rightarrow> string" where
  "user_payload_loop target_tokens seed text =
     (if estimate_tokens_for_text text < target_tokens
      then user_payload_loop target_tokens seed (text @ user_fragment seed)
      else text)"
  by pat_completeness auto
termination
proof (relation "measure (\<lambda>(target_tokens, seed, text). nat (4 * target_tokens) - length text)")
  show "wf (measure (\<lambda>(target_tokens, seed, text). nat (4 * target_tokens) - length text))"
    by simp
next
  fix target_tokens :: int and seed payload :: string
  assume a: "estimate_tokens_for_text payload < target_tokens"
  have "real (length payload) / 4 \<le> real_of_int \<lceil>real (length payload) / 4\<rceil>"
    by (rule le_of_int_ceiling)
  moreover from a have "\<lceil>real (length payload) / 4\<rceil> < target_tokens"
    by (simp add: estimate_tokens_for_text_def)
  ultimately have "real (length payload) / 4 < real_of_int target_tokens"
    by linarith
  then have "length payload < nat (4 * target_tokens)"
    by linarith
  moreover have "length payload < length (payload @ user_fragment seed)"
    by (simp add: user_fragment_def)
  ultimately have "nat (4 * target_tokens) - length (payload @ user_fragment seed)
      < nat (4 * target_tokens) - length payload"
    by linarith
  then show "((target_tokens, seed, payload @ user_fragment seed), (target_tokens, seed, payload))
      \<in> measure (\<lambda>(target_tokens, seed, text). nat (4 * target_tokens) - length text)"
    by simp
qed

declare user_payload_loop.simps [simp del]

definition build_user_payload :: "int \<Rightarrow> string \<Rightarrow> string" where
  "build_user_payload target_tokens seed = user_payload_loop target_tokens seed []"

text \<open>\<open>_build_system_payload\<close>, the same loop with another fragment.\<close>

definition system_fragment :: "string \<Rightarrow> string" where
  "system_fragment seed =
     seed @ ''. Preserve instruction fidelity, avoid hallucination, and remain concise. ''
          @ ''Use explicit constraints and deterministic formatting cues. ''"

function system_payload_loop :: "int \<Rightarrow> string \<Rightarrow> string \<Rightarrow> string" where
  "system_payload_loop target_tokens seed text =
     (if estimate_tokens_for_text text < target_tokens
      then system_payload_loop target_tokens seed (text @ system_fragment seed)
      else text)"
  by pat_completeness auto
termination
proof (relation "measure (\<lambda>(target_tokens, seed, text). nat (4 * target_tokens) - length text)")
  show "wf (measure (\<lambda>(target_tokens, seed, text). nat (4 * target_tokens) - length text))"
    by simp
next
  fix target_tokens :: int and seed payload :: string
  assume a: "estimate_tokens_for_text payload < target_tokens"
  have "real (length payload) / 4 \<le> real_of_int \<lceil>real (length payload) / 4\<rceil>"
    by (rule le_of_int_ceiling)
  moreover from a have "\<lceil>real (length payload) / 4\<rceil> < target_tokens"
    by (simp add: estimate_tokens_for_text_def)
  ultimately have "real (length payload) / 4 < real_of_int target_tokens"
    by linarith
  then have "length payload < nat (4 * target_tokens)"
    by linarith
  moreover have "length payload < length (payload @ system_fragment seed)"
    by (simp add: system_fragment_def)
  ultimately have "nat (4 * target_tokens) - length (payload @ system_fragment seed)
      < nat (4 * target_tokens) - length payload"
    by linarith
  then show "((target_tokens, seed, payload @ system_fragment seed), (target_tokens, seed, payload))
      \<in> measure (\<lambda>(target_tokens, seed, text). nat (4 * target_tokens) - length text)"
    by simp
qed

declare system_payload_loop.simps [simp del]

definition build_system_payload :: "int \<Rightarrow> string \<Rightarrow> string" where
  "build_system_payload target_tokens seed = system_payload_loop target_tokens seed []"

text \<open>
  The model backend. A call of \<open>llm_client.chat\<close> either raises or returns a completion;
  the orchestrator measures the wall-clock latency around it. The backend is a function of
  the number of calls made before, the messages and the token cap, and gives the error or
  the completion with the measured milliseconds. The clock read by the progress callbacks
  is a function of the number of calls made so far.
\<close>

datatype llm_error = HTTPStatusError | HTTPError | RuntimeError

type_synonym backend =
  "nat \<Rightarrow> ChatMessageIn list \<Rightarrow> int option \<Rightarrow> llm_error + ChatCompletionResult \<times> int"

text \<open>The state of a run: the job entry and the number of backend calls made.\<close>

record run_state =
  rs_job :: baseline_job
  rs_calls :: nat

definition on_progress :: "(nat \<Rightarrow> nat) \<Rightarrow> string \<Rightarrow> int \<Rightarrow> run_state \<Rightarrow> run_state" where
  "on_progress clock step completed_inc st =
     st\<lparr>rs_job := baseline_progress (rs_job st) step completed_inc (clock (rs_calls st))\<rparr>"

text \<open>
  One awaited backend call: \<open>Inl\<close> is the exception, which ends the run. The call is
  counted either way.
\<close>

definition call_backend ::
  "backend \<Rightarrow> ChatMessageIn list \<Rightarrow> int option \<Rightarrow> run_state
     \<Rightarrow> (llm_error + ChatCompletionResult \<times> int) \<times> run_state"
where
  "call_backend llm messages max_tokens st =
     (llm (rs_calls st) messages max_tokens, st\<lparr>rs_calls := Suc (rs_calls st)\<rparr>)"

text \<open>
  The token counts of one call: those of the response when present, estimates otherwise.
\<close>

definition call_tokens :: "ChatMessageIn list \<Rightarrow> ChatCompletionResult \<Rightarrow> int \<times> int \<times> int" where
  "call_tokens messages completion =
     (let prompt_tokens =
            (case cr_prompt_tokens completion of Some v \<Rightarrow> v
             | None \<Rightarrow> estimate_tokens_for_messages messages);
          completion_tokens =
            (case cr_completion_tokens completion of Some v \<Rightarrow> v
             | None \<Rightarrow> estimate_tokens_for_text (cr_content completion));
          total_tokens =
            (case cr_total_tokens completion of Some v \<Rightarrow> v
             | None \<Rightarrow> prompt_tokens + completion_tokens)
      in (prompt_tokens, completion_tokens, total_tokens))"

definition single_call_result ::
  "string \<Rightarrow> string \<Rightarrow> string \<Rightarrow> ChatMessageIn list \<Rightarrow> ChatCompletionResult \<Rightarrow> int
     \<Rightarrow> BaselineCaseResult"
where
  "single_call_result case_id label user_payload messages completion latency_ms =
     (let (prompt_tokens, completion_tokens, total_tokens) = call_tokens messages completion
      in \<lparr>bc_id = case_id, bc_label = label, bc_calls = 1,
          bc_input_tokens_est = estimate_tokens_for_text user_payload,
          bc_prompt_tokens = prompt_tokens, bc_completion_tokens = completion_tokens,
          bc_total_tokens = total_tokens, bc_total_latency_ms = latency_ms,
          bc_avg_latency_ms = real_of_int latency_ms,
          bc_min_latency_ms = Some latency_ms, bc_max_latency_ms = Some latency_ms,
          bc_per_turn_latency_ms = None, bc_per_turn_prompt_tokens = None,
          bc_per_turn_completion_tokens = None\<rparr>)"

text \<open>\<open>_run_single_turn_case\<close>\<close>

definition run_single_turn_case ::
  "backend \<Rightarrow> (nat \<Rightarrow> nat) \<Rightarrow> string \<Rightarrow> string \<Rightarrow> string \<Rightarrow> string \<Rightarrow> int \<Rightarrow> int option
     \<Rightarrow> run_state \<Rightarrow> (llm_error + BaselineCaseResult) \<times> run_state"
where
  "run_single_turn_case llm clock effective_prompt case_id label task_instruction input_tokens
       max_tokens st =
     (let st1 = on_progress clock label 0 st;
          user_payload = build_user_payload input_tokens (label @ '' input'');
          messages = [system_message effective_prompt, system_message task_instruction,
                      \<lparr>role = ''user'', content = user_payload\<rparr>];
          (answer, st2) = call_backend llm messages max_tokens st1
      in case answer of
           Inl err \<Rightarrow> (Inl err, st2)
         | Inr (completion, latency_ms) \<Rightarrow>
             (Inr (single_call_result case_id label user_payload messages completion latency_ms),
              on_progress clock label 1 st2))"

text \<open>\<open>_run_system_prompt_pressure_case\<close>\<close>

definition run_system_prompt_pressure_case ::
  "backend \<Rightarrow> (nat \<Rightarrow> nat) \<Rightarrow> string \<Rightarrow> string \<Rightarrow> string \<Rightarrow> int \<Rightarrow> int \<Rightarrow> int option
     \<Rightarrow> run_state \<Rightarrow> (llm_error + BaselineCaseResult) \<times> run_state"
where
  "run_system_prompt_pressure_case llm clock effective_prompt case_id label system_tokens
       user_tokens max_tokens st =
     (let st1 = on_progress clock label 0 st;
          system_pressure = build_system_payload system_tokens (label @ '' system context'');
          user_payload = build_user_payload user_tokens (label @ '' user input'');
          messages = [system_message effective_prompt, system_message system_pressure,
                      \<lparr>role = ''user'', content = user_payload\<rparr>];
          (answer, st2) = call_backend llm messages max_tokens st1
      in case answer of
           Inl err \<Rightarrow> (Inl err, st2)
         | Inr (completion, latency_ms) \<Rightarrow>
             (Inr (single_call_result case_id label user_payload messages completion latency_ms),
              on_progress clock label 1 st2))"

text \<open>
  \<open>_run_multi_turn_case\<close>: the accumulators of its loop, then the loop over
  \<open>enumerate(turn_targets)\<close>. Each turn appends the user payload, calls the backend with
  the whole list, and appends the reply.
\<close>

record multi_turn_acc =
  mt_messages :: "ChatMessageIn list"
  mt_prompt_total :: int
  mt_completion_total :: int
  mt_token_total :: int
  mt_latency_total :: int
  mt_per_turn_latency_ms :: "int list"
  mt_per_turn_prompt_tokens :: "int list"
  mt_per_turn_completion_tokens :: "int list"
  mt_input_total :: int

fun multi_turn_loop ::
  "backend \<Rightarrow> (nat \<Rightarrow> nat) \<Rightarrow> string \<Rightarrow> int option \<Rightarrow> nat \<Rightarrow> nat \<Rightarrow> int list
     \<Rightarrow> multi_turn_acc \<Rightarrow> run_state \<Rightarrow> (llm_error + multi_turn_acc) \<times> run_state"
where
  "multi_turn_loop llm clock label max_tokens n idx [] acc st = (Inr acc, st)"
| "multi_turn_loop llm clock label max_tokens n idx (target # rest) acc st =
     (let step = label @ '' (turn '' @ str_nat (idx + 1) @ ''/'' @ str_nat n @ '')'';
          st1 = on_progress clock step 0 st;
          user_payload = build_user_payload target (label @ '' turn '' @ str_nat (idx + 1));
          messages = mt_messages acc @ [\<lparr>role = ''user'', content = user_payload\<rparr>];
          (answer, st2) = call_backend llm messages max_tokens st1
      in case answer of
           Inl err \<Rightarrow> (Inl err, st2)
         | Inr (completion, latency_ms) \<Rightarrow>
             (let (prompt_tokens, completion_tokens, total_tokens) = call_tokens messages completion;
                  acc' = \<lparr>mt_messages =
                            messages @ [\<lparr>role = ''assistant'', content = cr_content completion\<rparr>],
                          mt_prompt_total = mt_prompt_total acc + prompt_tokens,
                          mt_completion_total = mt_completion_total acc + completion_tokens,
                          mt_token_total = mt_token_total acc + total_tokens,
                          mt_latency_total = mt_latency_total acc + latency_ms,
                          mt_per_turn_latency_ms = mt_per_turn_latency_ms acc @ [latency_ms],
                          mt_per_turn_prompt_tokens = mt_per_turn_prompt_tokens acc @ [prompt_tokens],
                          mt_per_turn_completion_tokens =
                            mt_per_turn_completion_tokens acc @ [completion_tokens],
                          mt_input_total =
                            mt_input_total acc + estimate_tokens_for_text user_payload\<rparr>
              in multi_turn_loop llm clock label max_tokens n (Suc idx) rest acc'
                   (on_progress clock step 1 st2)))"

text \<open>\<open>min(xs) if xs else None\<close> and \<open>max(xs) if xs else None\<close>\<close>

definition py_min :: "int list \<Rightarrow> int option" where
  "py_min xs = (case xs of [] \<Rightarrow> None | x # rest \<Rightarrow> Some (fold min rest x))"

definition py_max :: "int list \<Rightarrow> int option" where
  "py_max xs = (case xs of [] \<Rightarrow> None | x # rest \<Rightarrow> Some (fold max rest x))"

definition run_multi_turn_case ::
  "backend \<Rightarrow> (nat \<Rightarrow> nat) \<Rightarrow> string \<Rightarrow> string \<Rightarrow> string \<Rightarrow> string \<Rightarrow> int list \<Rightarrow> int option
     \<Rightarrow> run_state \<Rightarrow> (llm_error + BaselineCaseResult) \<times> run_state"
where
  "run_multi_turn_case llm clock effective_prompt case_id label task_instruction turn_targets
       max_tokens st =
     (let acc0 = \<lparr>mt_messages = [system_message effective_prompt, system_message task_instruction],
                  mt_prompt_total = 0, mt_completion_total = 0, mt_token_total = 0,
                  mt_latency_total = 0, mt_per_turn_latency_ms = [],
                  mt_per_turn_prompt_tokens = [], mt_per_turn_completion_tokens = [],
                  mt_input_total = 0\<rparr>;
          (outcome, st') = multi_turn_loop llm clock label max_tokens (length turn_targets) 0
                             turn_targets acc0 st
      in case outcome of
           Inl err \<Rightarrow> (Inl err, st')
         | Inr acc \<Rightarrow>
             (let calls = int (length turn_targets)
              in (Inr \<lparr>bc_id = case_id, bc_label = label, bc_calls = calls,
                       bc_input_tokens_est = mt_input_total acc,
                       bc_prompt_tokens = mt_prompt_total acc,
                       bc_completion_tokens = mt_completion_total acc,
                       bc_total_tokens = mt_token_total acc,
                       bc_total_latency_ms = mt_latency_total acc,
                       bc_avg_latency_ms =
                         (if calls > 0 then real_of_int (mt_latency_total acc) / real_of_int calls
                          else 0),
                       bc_min_latency_ms = py_min (mt_per_turn_latency_ms acc),
                       bc_max_latency_ms = py_max (mt_per_turn_latency_ms acc),
                       bc_per_turn_latency_ms = Some (mt_per_turn_latency_ms acc),
                       bc_per_turn_prompt_tokens = Some (mt_per_turn_prompt_tokens acc),
                       bc_per_turn_completion_tokens = Some (mt_per_turn_completion_tokens acc)\<rparr>,
                  st')))"

text \<open>
  A list of awaited cases, run in order; the first exception ends the run, as it
  propagates out of \<open>_execute_baseline\<close>.
\<close>

fun run_cases ::
  "(run_state \<Rightarrow> (llm_error + BaselineCaseResult) \<times> run_state) list \<Rightarrow> run_state
     \<Rightarrow> (llm_error + BaselineCaseResult list) \<times> run_state"
where
  "run_cases [] st = (Inr [], st)"
| "run_cases (f # fs) st =
     (case f st of
        (Inl err, st1) \<Rightarrow> (Inl err, st1)
      | (Inr c, st1) \<Rightarrow>
          (case run_cases fs st1 of
             (Inl err, st2) \<Rightarrow> (Inl err, st2)
           | (Inr cs, st2) \<Rightarrow> (Inr (c # cs), st2)))"

definition multi_turn_targets :: "int list" where
  "multi_turn_targets = [50 + ((int i * 17) mod 151). i \<leftarrow> [0..<20]]"

definition system_prompt_targets :: "int list" where
  "system_prompt_targets = [200, 500, 1000, 2000, 5000, 10000]"

text \<open>The five groups of cases of \<open>_execute_baseline\<close>, in the order they are awaited.\<close>

definition simple_qa_runs ::
  "backend \<Rightarrow> (nat \<Rightarrow> nat) \<Rightarrow> string \<Rightarrow> int option
     \<Rightarrow> (run_state \<Rightarrow> (llm_error + BaselineCaseResult) \<times> run_state) list"
where
  "simple_qa_runs llm clock effective_prompt max_tokens =
     [run_single_turn_case llm clock effective_prompt ''qa_100'' ''Simple Q/A (100 user tokens)''
        ''Answer directly in 6-10 concise sentences.'' 100 max_tokens,
      run_single_turn_case llm clock effective_prompt ''qa_250'' ''Simple Q/A (250 user tokens)''
        ''Answer directly in 6-10 concise sentences.'' 250 max_tokens,
      run_single_turn_case llm clock effective_prompt ''qa_500'' ''Simple Q/A (500 user tokens)''
        ''Answer directly in 6-10 concise sentences.'' 500 max_tokens]"

definition summarization_runs ::
  "backend \<Rightarrow> (nat \<Rightarrow> nat) \<Rightarrow> string \<Rightarrow> int option
     \<Rightarrow> (run_state \<Rightarrow> (llm_error + BaselineCaseResult) \<times> run_state) list"
where
  "summarization_runs llm clock effective_prompt max_tokens =
     [run_single_turn_case llm clock effective_prompt ''sum_200'' ''Summarization (200 user tokens)''
        ''Summarize the content in 5 bullet points.'' 200 max_tokens,
      run_single_turn_case llm clock effective_prompt ''sum_500'' ''Summarization (500 user tokens)''
        ''Summarize the content in 5 bullet points.'' 500 max_tokens,
      run_single_turn_case llm clock effective_prompt ''sum_1000'' ''Summarization (1000 user tokens)''
        ''Summarize the content in 8 bullet points.'' 1000 max_tokens,
      run_single_turn_case llm clock effective_prompt ''sum_2000'' ''Summarization (2000 user tokens)''
        ''Summarize the content in 10 bullet points.'' 2000 max_tokens]"

definition multi_turn_runs ::
  "backend \<Rightarrow> (nat \<Rightarrow> nat) \<Rightarrow> string \<Rightarrow> int option
     \<Rightarrow> (run_state \<Rightarrow> (llm_error + BaselineCaseResult) \<times> run_state) list"
where
  "multi_turn_runs llm clock effective_prompt max_tokens =
     [run_multi_turn_case llm clock effective_prompt ''mt_20x_50_200''
        ''20-turn conversation (50-200 user tokens/turn)''
        ''Maintain consistency across turns and preserve key decisions while answering each turn concisely.''
        multi_turn_targets max_tokens]"

definition extraction_runs ::
  "backend \<Rightarrow> (nat \<Rightarrow> nat) \<Rightarrow> string \<Rightarrow> int option
     \<Rightarrow> (run_state \<Rightarrow> (llm_error + BaselineCaseResult) \<times> run_state) list"
where
  "extraction_runs llm clock effective_prompt max_tokens =
     [run_single_turn_case llm clock effective_prompt ''extract_400''
        ''Structured Extraction (400 user tokens)''
        ''Extract entities into JSON with keys: people, organizations, dates, locations, and actions.''
        400 max_tokens]"

definition system_prompt_runs ::
  "backend \<Rightarrow> (nat \<Rightarrow> nat) \<Rightarrow> string \<Rightarrow> int option
     \<Rightarrow> (run_state \<Rightarrow> (llm_error + BaselineCaseResult) \<times> run_state) list"
where
  "system_prompt_runs llm clock effective_prompt max_tokens =
     map (\<lambda>(idx, target).
            run_system_prompt_pressure_case llm clock effective_prompt
              (''sys_'' @ str_int target)
              (''System Prompt Pressure ('' @ str_int target @ '' system tokens)'')
              target (100 + ((int idx * 37) mod 201)) max_tokens)
       (enumerate 0 system_prompt_targets)"

text \<open>
  \<open>_execute_baseline\<close>, after it has composed the effective prompt and read the response
  cap: \<open>effective_prompt\<close> is the composed system prompt and \<open>baseline_max_tokens\<close> the
  tenant's \<open>max_response_tokens\<close>, or \<open>None\<close> when the cap is not enforced.
  \<open>duration\<close> is the measured duration of the run.
\<close>

definition execute_baseline ::
  "backend \<Rightarrow> (nat \<Rightarrow> nat) \<Rightarrow> string \<Rightarrow> int option \<Rightarrow> string \<Rightarrow> int \<Rightarrow> run_state
     \<Rightarrow> (llm_error + BaselineRunResponse) \<times> run_state"
where
  "execute_baseline llm clock effective_prompt baseline_max_tokens model duration st =
     (case run_cases (simple_qa_runs llm clock effective_prompt baseline_max_tokens) st of
        (Inl err, st1) \<Rightarrow> (Inl err, st1)
      | (Inr simple_qa_cases, st1) \<Rightarrow>
     (case run_cases (summarization_runs llm clock effective_prompt baseline_max_tokens) st1 of
        (Inl err, st2) \<Rightarrow> (Inl err, st2)
      | (Inr summarization_cases, st2) \<Rightarrow>
     (case run_cases (multi_turn_runs llm clock effective_prompt baseline_max_tokens) st2 of
        (Inl err, st3) \<Rightarrow> (Inl err, st3)
      | (Inr multi_turn_cases, st3) \<Rightarrow>
     (case run_cases (extraction_runs llm clock effective_prompt baseline_max_tokens) st3 of
        (Inl err, st4) \<Rightarrow> (Inl err, st4)
      | (Inr extraction_cases, st4) \<Rightarrow>
     (case run_cases (system_prompt_runs llm clock effective_prompt baseline_max_tokens) st4 of
        (Inl err, st5) \<Rightarrow> (Inl err, st5)
      | (Inr system_prompt_cases, st5) \<Rightarrow>
          (let categories =
                 [\<lparr>cat_id = ''simple_qa'', cat_label = ''Simple Q/A'',
                   cat_cases = simple_qa_cases\<rparr>,
                  \<lparr>cat_id = ''summarization'', cat_label = ''Summarization Tasks'',
                   cat_cases = summarization_cases\<rparr>,
                  \<lparr>cat_id = ''multi_turn'', cat_label = ''20-Turn Conversation'',
                   cat_cases = multi_turn_cases\<rparr>,
                  \<lparr>cat_id = ''structured_extraction'', cat_label = ''Structured Extraction (Extra)'',
                   cat_cases = extraction_cases\<rparr>,
                  \<lparr>cat_id = ''system_prompt_pressure'', cat_label = ''System Prompt Pressure'',
                   cat_cases = system_prompt_cases\<rparr>]
           in (Inr \<lparr>run_model = model, run_started_at = clock (rs_calls st),
                    run_completed_at = clock (rs_calls st5), run_duration_ms = duration,
                    run_total_calls = sum_list (map bc_calls (concat (map cat_cases categories))),
                    run_categories = categories\<rparr>,
               st5)))))))"

text \<open>A backend that always answers, for a concrete run.\<close>

definition example_backend :: backend where
  "example_backend n messages max_tokens =
     Inr (\<lparr>cr_content = ''ok'', cr_latency_ms = 3, cr_prompt_tokens = None,
           cr_completion_tokens = None, cr_total_tokens = None\<rparr>, 4)"

text \<open>A case that counts one call and makes one; a case that always returns.\<close>

definition unit_case ::
  "(run_state \<Rightarrow> (llm_error + BaselineCaseResult) \<times> run_state) \<Rightarrow> bool" where
  "unit_case f \<longleftrightarrow>
     (\<forall>s c s'. f s = (Inr c, s') \<longrightarrow> bc_calls c = 1 \<and> rs_calls s' = Suc (rs_calls s))"

definition always_returns ::
  "(run_state \<Rightarrow> (llm_error + BaselineCaseResult) \<times> run_state) \<Rightarrow> bool" where
  "always_returns f \<longleftrightarrow> (\<forall>s. \<exists>c s'. f s = (Inr c, s'))"

section \<open>A concrete chat turn\<close>

text \<open>
  A tenant whose window is 100 tokens, with stored instructions that need trimming, and a
  stored history of four messages of 200 characters each, one of them with a role that the
  chat turn filters out.
\<close>

definition example_env :: Settings where
  "example_env = \<lparr>aigent_tenant_id = ''default'', ollama_base_url = ''http://localhost:11434'',
     ollama_model = ''llama3.2:3b'', ollama_context_window = 100,
     ollama_max_response_tokens = 512, chat_db_path = ''chat.db'', default_agent_id = ''basic''\<rparr>"

definition example_cs :: StoredContextSettings where
  "example_cs = \<lparr>cs_tenant_id = ''default'', max_context_tokens = 100, max_response_tokens = 512,
     compact_trigger_pct = double_0_9, compact_instructions = '' Summarize. '', cs_updated_at = 0\<rparr>"

definition example_table :: context_table where
  "example_table = Map.empty(''default'' \<mapsto> example_cs)"

text \<open>
  The doubles nearest to 0.29 and to 0.57, and the example tenant with another window and
  trigger fraction.
\<close>

definition double_0_29 :: real where
  "double_0_29 = 5224175567749775 / 2 ^ 54"

definition double_0_57 :: real where
  "double_0_57 = 5134103575202365 / 2 ^ 53"

definition env_with_window :: "int \<Rightarrow> Settings" where
  "env_with_window w = example_env\<lparr>ollama_context_window := w\<rparr>"

definition stored_settings :: "int \<Rightarrow> real \<Rightarrow> StoredContextSettings" where
  "stored_settings w p = example_cs\<lparr>max_context_tokens := w, compact_trigger_pct := p\<rparr>"

definition table_with :: "int \<Rightarrow> real \<Rightarrow> context_table" where
  "table_with w p = Map.empty(''default'' \<mapsto> stored_settings w p)"

definition example_turn :: "nat \<Rightarrow> string \<Rightarrow> StoredMessage" where
  "example_turn n r = \<lparr>msg_id = ''m'', msg_role = r, msg_content = replicate n CHR ''a'', msg_created_at = 0\<rparr>"

definition example_history :: "StoredMessage list" where
  "example_history = [example_turn 200 ''user'', example_turn 200 ''assistant'',
     example_turn 200 ''tool'', example_turn 200 ''user'']"

section \<open>Token estimator: properties\<close>

lemma ceiling_quarter: "\<lceil>real n / 4\<rceil> = (int n + 3) div 4"
proof -
  have "\<lceil>real n / 4\<rceil> = \<lceil>real_of_int (int n) / real_of_int 4\<rceil>" by simp
  also have "\<dots> = - ((- int n) div 4)" by (simp only: ceiling_divide_eq_div)
  also have "\<dots> = (int n + 3) div 4" by presburger
  finally show ?thesis .
qed

lemma estimate_tokens_for_text_code:
  "estimate_tokens_for_text text = max 1 ((int (length text) + 3) div 4)"
  by (simp only: estimate_tokens_for_text_def ceiling_quarter)

lemma estimate_tokens_for_messages_code:
  "estimate_tokens_for_messages ms = max 1 ((int (char_count ms) + 3) div 4)"
  by (simp only: estimate_tokens_for_messages_def ceiling_quarter)

lemma char_count_Cons [simp]:
  "char_count (m # ms) = length (content m) + char_count ms"
  by (simp add: char_count_def)

lemma char_count_Nil [simp]: "char_count [] = 0"
  by (simp add: char_count_def)

lemma char_count_append [simp]: "char_count (xs @ ys) = char_count xs + char_count ys"
  by (simp add: char_count_def)

text \<open>
  C4. For every text and every message list the estimator returns
  \<open>max(1, ceil(totalCharacters / 4))\<close>, where the total of a message list is the sum of the
  lengths of its contents; the value is at least 1 (also for the empty string and the empty
  list), and it is monotonically non-decreasing in the total character length.
\<close>

theorem estimate_tokens_ceil_floor_one_monotone:
  "estimate_tokens_for_text text = max 1 \<lceil>real (length text) / 4\<rceil>
   \<and> estimate_tokens_for_messages ms = max 1 \<lceil>real (\<Sum>m\<leftarrow>ms. length (content m)) / 4\<rceil>
   \<and> 1 \<le> estimate_tokens_for_text text
   \<and> 1 \<le> estimate_tokens_for_messages ms
   \<and> estimate_tokens_for_text [] = 1
   \<and> estimate_tokens_for_messages [] = 1
   \<and> (length text \<le> length text' \<longrightarrow>
        estimate_tokens_for_text text \<le> estimate_tokens_for_text text')
   \<and> (char_count ms \<le> char_count ms' \<longrightarrow>
        estimate_tokens_for_messages ms \<le> estimate_tokens_for_messages ms')"
proof -
  have mono: "max 1 \<lceil>real a / 4\<rceil> \<le> max 1 \<lceil>real b / 4\<rceil>" if "a \<le> b" for a b :: nat
  proof -
    from that have "real a / 4 \<le> real b / 4" by simp
    then have "\<lceil>real a / 4\<rceil> \<le> \<lceil>real b / 4\<rceil>" by (rule ceiling_mono)
    then show ?thesis by simp
  qed
  show ?thesis
    using mono [of "length text" "length text'"] mono [of "char_count ms" "char_count ms'"]
    by (simp add: estimate_tokens_for_text_def estimate_tokens_for_messages_def char_count_def)
qed

theorem estimate_tokens_monotone_witness:
  "length ''abcd'' \<le> length ''abcde''
   \<and> estimate_tokens_for_text ''abcd'' = 1
   \<and> estimate_tokens_for_text ''abcde'' = 2
   \<and> char_count [\<lparr>role = ''user'', content = ''abc''\<rparr>]
        \<le> char_count [\<lparr>role = ''user'', content = ''abcd''\<rparr>, \<lparr>role = ''user'', content = ''e''\<rparr>]
   \<and> estimate_tokens_for_messages [\<lparr>role = ''user'', content = ''abc''\<rparr>]
        \<le> estimate_tokens_for_messages
             [\<lparr>role = ''user'', content = ''abcd''\<rparr>, \<lparr>role = ''user'', content = ''e''\<rparr>]"
  using estimate_tokens_ceil_floor_one_monotone
    [of "''abcd''" "[\<lparr>role = ''user'', content = ''abc''\<rparr>]" "''abcde''"
        "[\<lparr>role = ''user'', content = ''abcd''\<rparr>, \<lparr>role = ''user'', content = ''e''\<rparr>]"]
  by (simp add: estimate_tokens_for_text_code)


section \<open>Context compaction: properties\<close>

lemma strip_eq_Nil_iff: "strip s = [] \<longleftrightarrow> (\<forall>c\<in>set s. py_isspace c)"
proof -
  have "(\<forall>x\<in>set (dropWhile P xs). P x) \<longleftrightarrow> (\<forall>x\<in>set xs. P x)" for P and xs :: "'a list"
  proof
    assume a: "\<forall>x\<in>set (dropWhile P xs). P x"
    have "dropWhile P xs = []"
    proof (rule ccontr)
      assume n: "dropWhile P xs \<noteq> []"
      then have "\<not> P (hd (dropWhile P xs))" by (rule hd_dropWhile)
      with a n show False by simp
    qed
    then show "\<forall>x\<in>set xs. P x" by (simp add: dropWhile_eq_Nil_conv)
  next
    assume "\<forall>x\<in>set xs. P x"
    then show "\<forall>x\<in>set (dropWhile P xs). P x" by (blast dest: set_dropWhileD)
  qed
  then show ?thesis by (simp add: strip_def dropWhile_eq_Nil_conv)
qed

lemma strip_default_instructions: "strip default_compaction_instructions \<noteq> []"
proof -
  have "CHR ''I'' \<in> set default_compaction_instructions"
    by (simp add: default_compaction_instructions_def)
  moreover have "\<not> py_isspace CHR ''I''" by (simp add: py_isspace_def)
  ultimately show ?thesis unfolding strip_eq_Nil_iff by blast
qed

lemma ensure_context_settings_nonblank:
  "strip (compact_instructions (fst (ensure_context_settings tbl tenant mc mr pct now))) \<noteq> []"
  by (simp add: ensure_context_settings_def Let_def strip_default_instructions split: option.splits)

lemma update_context_settings_nonblank:
  "strip (compact_instructions (fst (update_context_settings tbl tenant mc mr pct instr now))) \<noteq> []"
  by (simp add: update_context_settings_def Let_def split_beta ensure_context_settings_nonblank)

lemma get_context_settings_nonblank:
  "strip (compact_instructions (fst (get_context_settings env dp now tbl))) \<noteq> []"
  by (simp add: get_context_settings_def Let_def split_beta ensure_context_settings_nonblank
        update_context_settings_nonblank)


lemma drop_loop_closed_form:
  "\<exists>k. drop_loop mx msgs d = (take 2 msgs @ drop (2 + k) msgs, d + int k)
     \<and> (\<forall>j<k. loop_continues mx (take 2 msgs @ drop (2 + j) msgs))
     \<and> \<not> loop_continues mx (take 2 msgs @ drop (2 + k) msgs)"
proof (induction mx msgs d rule: drop_loop.induct)
  case (1 mx msgs d)
  show ?case
  proof (cases "loop_continues mx msgs")
    case False
    then have "drop_loop mx msgs d = (msgs, d)"
      by (subst drop_loop.simps) (auto simp: loop_continues_def)
    with False show ?thesis
      by (intro exI [of _ 0]) simp
  next
    case True
    then have len: "2 < length msgs" and est: "mx < estimate_tokens_for_messages msgs"
      by (simp_all add: loop_continues_def)
    let ?p = "pop_at 2 msgs"
    from len est 1 obtain k where
      k: "drop_loop mx ?p (d + 1) = (take 2 ?p @ drop (2 + k) ?p, d + 1 + int k)"
         "\<forall>j<k. loop_continues mx (take 2 ?p @ drop (2 + j) ?p)"
         "\<not> loop_continues mx (take 2 ?p @ drop (2 + k) ?p)"
      by blast
    have shape: "take 2 ?p @ drop (2 + j) ?p = take 2 msgs @ drop (2 + Suc j) msgs" for j
      using len by (simp add: pop_at_def eval_nat_numeral)
    have step: "drop_loop mx msgs d = drop_loop mx ?p (d + 1)"
      using len est by (subst drop_loop.simps) simp
    have "\<forall>j<Suc k. loop_continues mx (take 2 msgs @ drop (2 + j) msgs)"
    proof (intro allI impI)
      fix j assume "j < Suc k"
      show "loop_continues mx (take 2 msgs @ drop (2 + j) msgs)"
      proof (cases j)
        case 0
        with True show ?thesis by simp
      next
        case (Suc i)
        with \<open>j < Suc k\<close> have "i < k" by simp
        with k(2) have "loop_continues mx (take 2 ?p @ drop (2 + i) ?p)" by blast
        then show ?thesis by (simp only: shape Suc)
      qed
    qed
    moreover have "drop_loop mx msgs d = (take 2 msgs @ drop (2 + Suc k) msgs, d + int (Suc k))"
      by (simp only: step k(1) shape) simp
    moreover have "\<not> loop_continues mx (take 2 msgs @ drop (2 + Suc k) msgs)"
      using k(3) unfolding shape .
    ultimately show ?thesis by blast
  qed
qed

lemma assemble_messages_applied:
  "compaction_applied (assemble_messages p h cs) \<longleftrightarrow>
     strip (compact_instructions cs) \<noteq> []
     \<and> py_int (float_mul (py_float_of_int (max_context_tokens cs)) (compact_trigger_pct cs))
         \<le> estimate_tokens_for_messages (system_message p # history_messages h)"
  by (simp add: assemble_messages_def Let_def)

lemma assemble_messages_before:
  "est_prompt_tokens_before (assemble_messages p h cs) =
     estimate_tokens_for_messages (system_message p # history_messages h)"
  by (simp add: assemble_messages_def Let_def)

lemma assemble_messages_list:
  "llm_messages (assemble_messages p h cs) =
     (if compaction_applied (assemble_messages p h cs)
      then system_message p # system_message (strip (compact_instructions cs)) # history_messages h
      else system_message p # history_messages h)"
  by (simp add: assemble_messages_def Let_def insert_at_def)

lemma assemble_messages_dropped:
  "dropped_history_messages (assemble_messages p h cs) = 0"
  by (simp add: assemble_messages_def Let_def)

lemma compact_context_closed_form:
  "\<exists>k. dropped_history_messages (fst (compact_context p h cs)) = int k
     \<and> llm_messages (fst (compact_context p h cs)) =
         take 2 (llm_messages (assemble_messages p h cs))
         @ drop (2 + k) (llm_messages (assemble_messages p h cs))
     \<and> (\<forall>j<k. loop_continues (max_context_tokens cs)
           (take 2 (llm_messages (assemble_messages p h cs))
            @ drop (2 + j) (llm_messages (assemble_messages p h cs))))
     \<and> \<not> loop_continues (max_context_tokens cs)
           (take 2 (llm_messages (assemble_messages p h cs))
            @ drop (2 + k) (llm_messages (assemble_messages p h cs)))"
proof -
  let ?a = "assemble_messages p h cs"
  from drop_loop_closed_form [of "max_context_tokens cs" "llm_messages ?a" 0]
  obtain k where
    k: "drop_loop (max_context_tokens cs) (llm_messages ?a) 0
          = (take 2 (llm_messages ?a) @ drop (2 + k) (llm_messages ?a), int k)"
       "\<forall>j<k. loop_continues (max_context_tokens cs)
          (take 2 (llm_messages ?a) @ drop (2 + j) (llm_messages ?a))"
       "\<not> loop_continues (max_context_tokens cs)
          (take 2 (llm_messages ?a) @ drop (2 + k) (llm_messages ?a))"
    by auto
  from k(1) have "dropped_history_messages (fst (compact_context p h cs)) = int k"
    and "llm_messages (fst (compact_context p h cs)) =
           take 2 (llm_messages ?a) @ drop (2 + k) (llm_messages ?a)"
    by (simp_all add: compact_context_def Let_def assemble_messages_dropped)
  with k(2,3) show ?thesis by blast
qed

lemma round_half_even_le:
  assumes "x \<le> real_of_int n"
  shows "round_half_even x \<le> n"
proof (cases "x = real_of_int n")
  case True
  then show ?thesis by (simp add: round_half_even_def)
next
  case False
  with assms have "x < real_of_int n" by simp
  then have "\<lfloor>x\<rfloor> < n" by (simp add: floor_less_iff)
  then have "\<lfloor>x\<rfloor> + 1 \<le> n" by simp
  then show ?thesis by (simp add: round_half_even_def Let_def)
qed

lemma round_half_even_of_int [simp]: "round_half_even (real_of_int n) = n"
  by (simp add: round_half_even_def)

lemma round_half_even_nonneg:
  assumes "0 \<le> x"
  shows "0 \<le> round_half_even x"
proof -
  from assms have "0 \<le> \<lfloor>x\<rfloor>" by simp
  then show ?thesis by (simp add: round_half_even_def Let_def)
qed

lemma pow2_pos: "0 < pow2 k"
  by (simp add: pow2_def)

lemma pow2_nonpos:
  assumes "k \<le> 0"
  shows "real_of_int m / pow2 k = real_of_int (m * 2 ^ nat (- k))"
proof (cases "k = 0")
  case True
  then show ?thesis by (simp add: pow2_def)
next
  case False
  with assms have "k < 0" by simp
  then show ?thesis by (simp add: pow2_def)
qed

lemma exponent2_le_52:
  assumes "0 < x" and "x \<le> real_of_int m" and "m < 2 ^ 53"
  shows "exponent2 x \<le> 52"
proof (cases "1 \<le> x")
  case True
  from assms(2) have "\<lfloor>x\<rfloor> \<le> m" by (simp add: floor_le_iff)
  from this assms(3) have "\<lfloor>x\<rfloor> < 2 ^ 53" by (rule le_less_trans)
  then have "\<lfloor>x\<rfloor> < 2 ^ nat 53" by (simp only: nat_numeral)
  then have "(0::int) \<le> 53 \<and> \<lfloor>x\<rfloor> < 2 ^ nat 53" by (intro conjI) simp
  then have "bitlen \<lfloor>x\<rfloor> \<le> 53" by (simp only: bitlen_le_iff_power)
  with True show ?thesis by (simp add: exponent2_def)
next
  case False
  have "0 \<le> bitlen (\<lceil>1 / x\<rceil> - 1)" by (rule bitlen_nonneg)
  with False show ?thesis by (simp add: exponent2_def)
qed

lemma round_double_le_int:
  assumes m: "0 \<le> m" "m < 2 ^ 53" and x: "x \<le> real_of_int m"
  shows "round_double x \<le> real_of_int m"
proof -
  consider "x = 0" | "x < 0" | "0 < x" by linarith
  then show ?thesis
  proof cases
    case 1
    with m show ?thesis by (simp add: round_double_def)
  next
    case 2
    let ?u = "pow2 (exponent2 \<bar>x\<bar> - 52)"
    have "0 \<le> \<bar>x\<bar> / ?u" using pow2_pos [of "exponent2 \<bar>x\<bar> - 52"] by simp
    then have "0 \<le> round_half_even (\<bar>x\<bar> / ?u)" by (rule round_half_even_nonneg)
    then have "0 \<le> real_of_int (round_half_even (\<bar>x\<bar> / ?u)) * ?u"
      using pow2_pos [of "exponent2 \<bar>x\<bar> - 52"] by simp
    with 2 m show ?thesis by (simp add: round_double_def Let_def)
  next
    case 3
    let ?k = "exponent2 x - 52"
    let ?u = "pow2 ?k"
    from exponent2_le_52 [OF 3 x m(2)] have k: "?k \<le> 0" by simp
    have upos: "0 < ?u" by (rule pow2_pos)
    from x upos have "x / ?u \<le> real_of_int m / ?u" by (simp add: divide_right_mono)
    also have "\<dots> = real_of_int (m * 2 ^ nat (- ?k))" using k by (rule pow2_nonpos)
    finally have "round_half_even (x / ?u) \<le> m * 2 ^ nat (- ?k)" by (rule round_half_even_le)
    then have "real_of_int (round_half_even (x / ?u)) \<le> real_of_int (m * 2 ^ nat (- ?k))"
      by (simp only: of_int_le_iff)
    also have "\<dots> = real_of_int m / ?u" using k by (rule pow2_nonpos [symmetric])
    finally have "real_of_int (round_half_even (x / ?u)) * ?u \<le> real_of_int m"
      using upos by (simp add: pos_le_divide_eq)
    with 3 show ?thesis by (simp add: round_double_def Let_def)
  qed
qed

lemma py_float_of_int_exact:
  assumes "0 \<le> m" and "m < 2 ^ 53"
  shows "py_float_of_int m = real_of_int m"
proof (cases "m = 0")
  case True
  then show ?thesis by (simp add: py_float_of_int_def round_double_def)
next
  case False
  with assms have pos: "0 < real_of_int m" by simp
  let ?k = "exponent2 (real_of_int m) - 52"
  let ?u = "pow2 ?k"
  from exponent2_le_52 [OF pos order_refl assms(2)] have k: "?k \<le> 0" by simp
  have upos: "0 < ?u" by (rule pow2_pos)
  have "real_of_int (round_half_even (real_of_int m / ?u)) * ?u
      = real_of_int m / ?u * ?u"
    by (simp only: pow2_nonpos [OF k] round_half_even_of_int)
  also have "\<dots> = real_of_int m" using upos by simp
  finally show ?thesis using pos
    by (simp add: py_float_of_int_def round_double_def Let_def)
qed

lemma py_int_le:
  assumes "0 \<le> m" and "x \<le> real_of_int m"
  shows "py_int x \<le> m"
proof (cases "0 \<le> x")
  case True
  from assms(2) have "\<lfloor>x\<rfloor> \<le> m" by (simp add: floor_le_iff)
  with True show ?thesis by (simp add: py_int_def)
next
  case False
  then have "\<lceil>x\<rceil> \<le> 0" by (simp add: ceiling_le_iff)
  moreover from False have "py_int x = \<lceil>x\<rceil>" by (simp add: py_int_def)
  ultimately show ?thesis using assms(1) by linarith
qed

lemma threshold_le_window:
  assumes "0 \<le> m" and "m < 2 ^ 53" and "pct \<le> 1"
  shows "py_int (float_mul (py_float_of_int m) pct) \<le> m"
proof -
  from assms have "real_of_int m * pct \<le> real_of_int m * 1"
    by (intro mult_left_mono) simp_all
  then have "real_of_int m * pct \<le> real_of_int m" by simp
  with assms(1,2) have "round_double (real_of_int m * pct) \<le> real_of_int m"
    by (rule round_double_le_int)
  then have "float_mul (py_float_of_int m) pct \<le> real_of_int m"
    by (simp add: float_mul_def py_float_of_int_exact [OF assms(1,2)])
  with assms(1) show ?thesis by (rule py_int_le)
qed

text \<open>Evaluating the rounding at numerals.\<close>

lemma bitlen_numeral_step:
  "bitlen (numeral n) = bitlen (numeral n div 2) + 1"
  by (subst compute_bitlen) simp

lemma bitlen_one: "bitlen 1 = 1"
  by (subst compute_bitlen) simp

lemmas float_eval = py_int_def round_half_even_def pow2_def exponent2_def round_double_def
  py_float_of_int_def float_mul_def Let_def bitlen_numeral_step bitlen_one

lemma py_int_threshold_iff:
  assumes "1 \<le> e"
  shows "py_int x \<le> e \<longleftrightarrow> \<lfloor>x\<rfloor> \<le> e"
proof (cases "0 \<le> x")
  case True
  then show ?thesis by (simp add: py_int_def)
next
  case False
  then have "\<lceil>x\<rceil> \<le> 0" and "\<lfloor>x\<rfloor> \<le> 0"
    by (simp_all add: ceiling_le_iff floor_le_iff)
  moreover from False have "py_int x = \<lceil>x\<rceil>" by (simp add: py_int_def)
  ultimately show ?thesis using assms by linarith
qed

lemma estimate_tokens_for_messages_ge_one: "1 \<le> estimate_tokens_for_messages ms"
  by (simp add: estimate_tokens_for_messages_def)

lemma dropping_implies_instructions_inserted:
  assumes nb: "strip (compact_instructions cs) \<noteq> []"
    and m: "0 \<le> max_context_tokens cs" and w: "max_context_tokens cs < 2 ^ 53"
    and pct: "compact_trigger_pct cs \<le> 1"
    and g: "loop_continues (max_context_tokens cs) (llm_messages (assemble_messages p h cs))"
  shows "compaction_applied (assemble_messages p h cs)"
proof (rule ccontr)
  assume n: "\<not> compaction_applied (assemble_messages p h cs)"
  then have "llm_messages (assemble_messages p h cs) = system_message p # history_messages h"
    by (simp add: assemble_messages_list)
  with g have "max_context_tokens cs < estimate_tokens_for_messages (system_message p # history_messages h)"
    by (simp add: loop_continues_def)
  with threshold_le_window [OF m w pct]
  have "py_int (float_mul (py_float_of_int (max_context_tokens cs)) (compact_trigger_pct cs))
          \<le> estimate_tokens_for_messages (system_message p # history_messages h)"
    by linarith
  with nb have "compaction_applied (assemble_messages p h cs)"
    by (simp add: assemble_messages_applied)
  with n show False ..
qed

text \<open>
  C1. While the list has more than two entries and its estimate exceeds
  \<open>max_context_tokens\<close>, one iteration of the loop removes exactly the entry at index 2
  and adds 1 to the counter. Over a whole chat turn, with the settings read through
  \<open>_get_context_settings\<close>, the loop therefore removes the entries at indices
  \<open>2 \<dots> k + 1\<close> of the assembled list, where \<open>k\<close> is the final counter: the guard held
  before each of the \<open>k\<close> removals and fails after the last. Whenever anything is dropped
  (and the window is not negative and below \<open>2^53\<close>, where every integer is a double, and
  the trigger fraction is at most 1), the instructions were inserted, so the list starts
  with the two system messages and the entries removed are the \<open>k\<close> oldest messages of
  the history.
\<close>

theorem compaction_loop_pops_index_two:
  "(loop_continues mx msgs \<longrightarrow>
      drop_loop mx msgs d = drop_loop mx (take 2 msgs @ drop 3 msgs) (d + 1))
   \<and> (let cs = fst (get_context_settings env default_pct now tbl);
           a = assemble_messages prompt history cs;
           c = fst (compact_context prompt history cs)
       in \<exists>k. dropped_history_messages c = int k
            \<and> llm_messages c = take 2 (llm_messages a) @ drop (2 + k) (llm_messages a)
            \<and> (\<forall>j<k. loop_continues (max_context_tokens cs)
                          (take 2 (llm_messages a) @ drop (2 + j) (llm_messages a)))
            \<and> \<not> loop_continues (max_context_tokens cs)
                          (take 2 (llm_messages a) @ drop (2 + k) (llm_messages a))
            \<and> (0 < k \<and> 0 \<le> max_context_tokens cs \<and> max_context_tokens cs < 2 ^ 53
                 \<and> compact_trigger_pct cs \<le> 1 \<longrightarrow>
                 llm_messages c =
                   system_message prompt # system_message (strip (compact_instructions cs))
                   # drop k (history_messages history)))"
proof -
  have step: "drop_loop mx msgs d = drop_loop mx (take 2 msgs @ drop 3 msgs) (d + 1)"
    if "loop_continues mx msgs"
    using that by (subst drop_loop.simps) (simp add: loop_continues_def pop_at_def eval_nat_numeral)
  define cs where "cs = fst (get_context_settings env default_pct now tbl)"
  define a where "a = assemble_messages prompt history cs"
  define c where "c = fst (compact_context prompt history cs)"
  from compact_context_closed_form [of prompt history cs]
  obtain k where
    k: "dropped_history_messages c = int k"
       "llm_messages c = take 2 (llm_messages a) @ drop (2 + k) (llm_messages a)"
       "\<forall>j<k. loop_continues (max_context_tokens cs)
                  (take 2 (llm_messages a) @ drop (2 + j) (llm_messages a))"
       "\<not> loop_continues (max_context_tokens cs)
                  (take 2 (llm_messages a) @ drop (2 + k) (llm_messages a))"
    unfolding a_def c_def by blast
  have oldest: "llm_messages c =
      system_message prompt # system_message (strip (compact_instructions cs))
      # drop k (history_messages history)"
    if "0 < k" and m: "0 \<le> max_context_tokens cs" and w: "max_context_tokens cs < 2 ^ 53"
      and pct: "compact_trigger_pct cs \<le> 1"
  proof -
    from k(3) \<open>0 < k\<close>
    have "loop_continues (max_context_tokens cs) (take 2 (llm_messages a) @ drop (2 + 0) (llm_messages a))"
      by blast
    then have g: "loop_continues (max_context_tokens cs) (llm_messages a)" by simp
    have nb: "strip (compact_instructions cs) \<noteq> []"
      unfolding cs_def by (rule get_context_settings_nonblank)
    from dropping_implies_instructions_inserted [OF nb m w pct] g
    have "compaction_applied a" unfolding a_def by blast
    then have "llm_messages a =
        system_message prompt # system_message (strip (compact_instructions cs))
        # history_messages history"
      unfolding a_def by (simp add: assemble_messages_list)
    with k(2) show ?thesis by simp
  qed
  from k oldest have "\<exists>k. dropped_history_messages c = int k
            \<and> llm_messages c = take 2 (llm_messages a) @ drop (2 + k) (llm_messages a)
            \<and> (\<forall>j<k. loop_continues (max_context_tokens cs)
                          (take 2 (llm_messages a) @ drop (2 + j) (llm_messages a)))
            \<and> \<not> loop_continues (max_context_tokens cs)
                          (take 2 (llm_messages a) @ drop (2 + k) (llm_messages a))
            \<and> (0 < k \<and> 0 \<le> max_context_tokens cs \<and> max_context_tokens cs < 2 ^ 53
                 \<and> compact_trigger_pct cs \<le> 1 \<longrightarrow>
                 llm_messages c =
                   system_message prompt # system_message (strip (compact_instructions cs))
                   # drop k (history_messages history))"
    by blast
  with step show ?thesis
    unfolding cs_def a_def c_def Let_def by blast
qed

lemma threshold_100:
  "py_int (float_mul (py_float_of_int 100) double_0_9) = 90"
  by (simp add: double_0_9_def float_eval)

lemma double_0_9_nearest: "round_double (9 / 10) = double_0_9"
  by (simp add: double_0_9_def float_eval)

lemma example_settings:
  "fst (get_context_settings example_env double_0_9 7 example_table) = example_cs"
  by (simp add: get_context_settings_def ensure_context_settings_def example_env_def
      example_table_def example_cs_def strip_def py_isspace_def)

lemma example_cs_fields:
  "max_context_tokens example_cs = 100"
  "compact_trigger_pct example_cs = double_0_9"
  "strip (compact_instructions example_cs) = ''Summarize.''"
  by (simp_all add: example_cs_def strip_def py_isspace_def)

lemma drop_loop_step:
  "loop_continues mx msgs \<Longrightarrow> drop_loop mx msgs d = drop_loop mx (pop_at 2 msgs) (d + 1)"
  by (subst drop_loop.simps) (simp add: loop_continues_def)

lemma drop_loop_stop:
  "\<not> loop_continues mx msgs \<Longrightarrow> drop_loop mx msgs d = (msgs, d)"
  by (subst drop_loop.simps) (auto simp: loop_continues_def)

lemma example_assembled:
  "assemble_messages ''P'' example_history example_cs =
   \<lparr>llm_messages = [system_message ''P'', system_message ''Summarize.'',
       \<lparr>role = ''user'', content = replicate 200 CHR ''a''\<rparr>,
       \<lparr>role = ''assistant'', content = replicate 200 CHR ''a''\<rparr>,
       \<lparr>role = ''user'', content = replicate 200 CHR ''a''\<rparr>],
     compaction_applied = True, compact_threshold = 90, est_prompt_tokens_before = 151,
     dropped_history_messages = 0\<rparr>"
  by (simp add: example_cs_fields assemble_messages_def Let_def history_messages_def
       example_turn_def example_history_def estimate_tokens_for_messages_code
       system_message_def insert_at_def threshold_100)

lemma example_compacted:
  "fst (compact_context ''P'' example_history example_cs) =
   \<lparr>llm_messages = [system_message ''P'', system_message ''Summarize.'',
       \<lparr>role = ''user'', content = replicate 200 CHR ''a''\<rparr>],
     compaction_applied = True, compact_threshold = 90, est_prompt_tokens_before = 151,
     dropped_history_messages = 2\<rparr>"
  by (simp add: compact_context_def Let_def example_assembled drop_loop_step drop_loop_stop
       loop_continues_def pop_at_def estimate_tokens_for_messages_code system_message_def
       example_cs_fields)

theorem compaction_loop_pops_index_two_witness:
  "loop_continues 100 (llm_messages (assemble_messages ''P'' example_history
      (fst (get_context_settings example_env double_0_9 7 example_table))))
   \<and> drop_loop 100 (llm_messages (assemble_messages ''P'' example_history
         (fst (get_context_settings example_env double_0_9 7 example_table)))) 0
       = drop_loop 100 [system_message ''P'', system_message ''Summarize.'',
           \<lparr>role = ''assistant'', content = replicate 200 CHR ''a''\<rparr>,
           \<lparr>role = ''user'', content = replicate 200 CHR ''a''\<rparr>] 1
   \<and> dropped_history_messages (fst (compact_context ''P'' example_history
         (fst (get_context_settings example_env double_0_9 7 example_table)))) = 2
   \<and> 0 \<le> max_context_tokens (fst (get_context_settings example_env double_0_9 7 example_table))
   \<and> max_context_tokens (fst (get_context_settings example_env double_0_9 7 example_table)) < 2 ^ 53
   \<and> compact_trigger_pct (fst (get_context_settings example_env double_0_9 7 example_table)) \<le> 1
   \<and> llm_messages (fst (compact_context ''P'' example_history
         (fst (get_context_settings example_env double_0_9 7 example_table))))
       = [system_message ''P'', system_message ''Summarize.'',
          \<lparr>role = ''user'', content = replicate 200 CHR ''a''\<rparr>]"
proof -
  let ?a = "assemble_messages ''P'' example_history example_cs"
  let ?c = "fst (compact_context ''P'' example_history example_cs)"
  note inst = compaction_loop_pops_index_two
    [of 100 "llm_messages ?a" 0 example_env double_0_9 7 example_table "''P''" example_history,
     unfolded Let_def example_settings]
  have cont: "loop_continues 100 (llm_messages ?a)"
    by (simp add: example_assembled loop_continues_def
        estimate_tokens_for_messages_code system_message_def)
  have popped: "take 2 (llm_messages ?a) @ drop 3 (llm_messages ?a) =
      [system_message ''P'', system_message ''Summarize.'',
       \<lparr>role = ''assistant'', content = replicate 200 CHR ''a''\<rparr>,
       \<lparr>role = ''user'', content = replicate 200 CHR ''a''\<rparr>]"
    by (simp add: example_assembled)
  from inst cont have step:
    "drop_loop 100 (llm_messages ?a) 0
       = drop_loop 100 (take 2 (llm_messages ?a) @ drop 3 (llm_messages ?a)) (0 + 1)"
    by blast
  have two: "dropped_history_messages ?c = 2"
    by (simp add: example_compacted)
  have bounds: "0 \<le> max_context_tokens example_cs" "max_context_tokens example_cs < 2 ^ 53"
    "compact_trigger_pct example_cs \<le> 1"
    by (simp_all add: example_cs_fields double_0_9_def)
  from inst obtain k where
    k: "dropped_history_messages ?c = int k"
       "0 < k \<and> 0 \<le> max_context_tokens example_cs \<and> max_context_tokens example_cs < 2 ^ 53
          \<and> compact_trigger_pct example_cs \<le> 1 \<longrightarrow>
          llm_messages ?c = system_message ''P'' # system_message (strip (compact_instructions example_cs))
            # drop k (history_messages example_history)"
    by blast
  from k(1) two have "k = 2" by simp
  with k(2) bounds
  have "llm_messages ?c = system_message ''P'' # system_message (strip (compact_instructions example_cs))
            # drop 2 (history_messages example_history)"
    by simp
  then have final: "llm_messages ?c = [system_message ''P'', system_message ''Summarize.'',
          \<lparr>role = ''user'', content = replicate 200 CHR ''a''\<rparr>]"
    by (simp add: example_cs_fields history_messages_def example_history_def example_turn_def)
  from cont step popped two bounds final show ?thesis
    unfolding example_settings by (simp only: add_0 conj_assoc simp_thms)
qed

lemma int_env_at_least:
  "min_value \<le> default_value \<Longrightarrow> min_value \<le> int_env raw default_value min_value"
  by (simp add: int_env_def split: option.splits)

lemma configured_window_at_least_256: "256 \<le> int_env raw 4096 256"
  by (rule int_env_at_least) simp

lemma get_context_settings_window:
  "max_context_tokens (fst (get_context_settings env dp now tbl)) = ollama_context_window env"
  by (simp add: get_context_settings_def update_context_settings_def ensure_context_settings_def
        Let_def split_beta split: option.splits)

lemma example_before:
  "est_prompt_tokens_before (assemble_messages ''P'' [example_turn n ''user''] cs)
     = max 1 ((int n + 4) div 4)"
  by (simp add: assemble_messages_before history_messages_def example_turn_def
      estimate_tokens_for_messages_code system_message_def)

lemma settings_of_table_with:
  "fst (get_context_settings (env_with_window w) dp now (table_with w p)) = stored_settings w p"
  by (simp add: get_context_settings_def ensure_context_settings_def env_with_window_def
      table_with_def stored_settings_def example_env_def example_cs_def strip_def py_isspace_def)

lemma stored_settings_fields:
  "max_context_tokens (stored_settings w p) = w"
  "compact_trigger_pct (stored_settings w p) = p"
  "compact_instructions (stored_settings w p) = '' Summarize. ''"
  "strip (compact_instructions (stored_settings w p)) = ''Summarize.''"
  by (simp_all add: stored_settings_def example_cs_def strip_def py_isspace_def)

lemma strip_summarize: "strip '' Summarize. '' = ''Summarize.''"
  by (simp add: strip_def py_isspace_def)

lemma assemble_messages_threshold:
  "compact_threshold (assemble_messages p h cs) =
     py_int (float_mul (py_float_of_int (max_context_tokens cs)) (compact_trigger_pct cs))"
  by (simp add: assemble_messages_def Let_def)

lemma threshold_1000_029:
  "py_int (float_mul (py_float_of_int 1000) double_0_29) = 290"
  by (simp add: double_0_29_def float_eval)

lemma threshold_300_057:
  "py_int (float_mul (py_float_of_int 300) double_0_57) = 170"
  by (simp add: double_0_57_def float_eval)

lemma double_0_29_nearest: "round_double (29 / 100) = double_0_29"
  by (simp add: double_0_29_def float_eval)

lemma double_0_57_nearest: "round_double (57 / 100) = double_0_57"
  by (simp add: double_0_57_def float_eval)

text \<open>
  C2, as stated, fails. The threshold of the code is the product of two doubles, rounded
  to a double and truncated, not the floor of the exact product. With a window of 1000 and
  the stored fraction 0.29 (the double nearest to it), the floor of the exact product is
  289 and the code's threshold is 290: at an estimate of 289, with instructions that are
  not empty, nothing is inserted. Read with the decimal fraction instead, the claim fails
  at a window of 300 and the fraction 0.57: the floor of 171 is 171, the code's threshold
  is 170, and at an estimate of 170 the message is inserted.
\<close>

theorem threshold_is_rounded_double_product_counterexample:
  "\<lfloor>real_of_int 1000 * double_0_29\<rfloor> = 289
   \<and> round_double (29 / 100) = double_0_29
   \<and> compact_instructions
        (fst (get_context_settings (env_with_window 1000) double_0_9 7 (table_with 1000 double_0_29)))
       \<noteq> []
   \<and> est_prompt_tokens_before (assemble_messages ''P'' [example_turn 1155 ''user'']
        (fst (get_context_settings (env_with_window 1000) double_0_9 7 (table_with 1000 double_0_29))))
       = 289
   \<and> compact_threshold (assemble_messages ''P'' [example_turn 1155 ''user'']
        (fst (get_context_settings (env_with_window 1000) double_0_9 7 (table_with 1000 double_0_29))))
       = 290
   \<and> \<not> compaction_applied (assemble_messages ''P'' [example_turn 1155 ''user'']
        (fst (get_context_settings (env_with_window 1000) double_0_9 7 (table_with 1000 double_0_29))))
   \<and> \<lfloor>real_of_int 300 * (57 / 100 :: real)\<rfloor> = 171
   \<and> round_double (57 / 100) = double_0_57
   \<and> est_prompt_tokens_before (assemble_messages ''P'' [example_turn 679 ''user'']
        (fst (get_context_settings (env_with_window 300) double_0_9 7 (table_with 300 double_0_57))))
       = 170
   \<and> compact_threshold (assemble_messages ''P'' [example_turn 679 ''user'']
        (fst (get_context_settings (env_with_window 300) double_0_9 7 (table_with 300 double_0_57))))
       = 170
   \<and> compaction_applied (assemble_messages ''P'' [example_turn 679 ''user'']
        (fst (get_context_settings (env_with_window 300) double_0_9 7 (table_with 300 double_0_57))))"
proof -
  have "\<lfloor>real_of_int 1000 * double_0_29\<rfloor> = 289"
    by (simp add: double_0_29_def)
  moreover have "\<lfloor>real_of_int 300 * (57 / 100 :: real)\<rfloor> = 171"
    by simp
  moreover have "est_prompt_tokens_before (assemble_messages ''P'' [example_turn 1155 ''user'']
      (stored_settings 1000 double_0_29)) = 289"
    and "est_prompt_tokens_before (assemble_messages ''P'' [example_turn 679 ''user'']
      (stored_settings 300 double_0_57)) = 170"
    by (simp_all add: example_before)
  moreover have "compact_threshold (assemble_messages ''P'' [example_turn 1155 ''user'']
      (stored_settings 1000 double_0_29)) = 290"
    and "compact_threshold (assemble_messages ''P'' [example_turn 679 ''user'']
      (stored_settings 300 double_0_57)) = 170"
    by (simp_all add: assemble_messages_threshold stored_settings_fields
        threshold_1000_029 threshold_300_057)
  moreover have "\<not> compaction_applied (assemble_messages ''P'' [example_turn 1155 ''user'']
      (stored_settings 1000 double_0_29))"
    by (simp add: assemble_messages_applied stored_settings_fields strip_summarize
        threshold_1000_029 history_messages_def example_turn_def estimate_tokens_for_messages_code system_message_def)
  moreover have "compaction_applied (assemble_messages ''P'' [example_turn 679 ''user'']
      (stored_settings 300 double_0_57))"
    by (simp add: assemble_messages_applied stored_settings_fields strip_summarize
        threshold_300_057 history_messages_def example_turn_def estimate_tokens_for_messages_code system_message_def)
  moreover have "compact_instructions (stored_settings 1000 double_0_29) \<noteq> []"
    by (simp add: stored_settings_fields)
  ultimately show ?thesis
    unfolding settings_of_table_with
    using double_0_29_nearest double_0_57_nearest by blast
qed

text \<open>
  C2, amended. In a chat turn the system message with the trimmed instructions is
  inserted at index 1, directly after the composed system prompt and before the history,
  if and only if the instructions are non-empty and the estimate of the assembled list is
  at least the threshold of the code: \<open>max_context_tokens\<close>, as a double, times
  \<open>compact_trigger_pct\<close>, rounded to the nearest double and then cut to an integer. Nothing
  else of the list changes. With a window of 100 and the trigger fraction 0.9, as a
  double, that threshold is 90: an estimate of 95 inserts the message and an estimate of
  50 does not. The settings are those returned by \<open>_get_context_settings\<close>, whose
  instructions are never blank.
\<close>

theorem instructions_inserted_iff_threshold_reached:
  "(let cs = fst (get_context_settings env default_pct now tbl);
        a = assemble_messages prompt history cs;
        assembled = system_message prompt # history_messages history;
        threshold = \<lfloor>float_mul (py_float_of_int (max_context_tokens cs)) (compact_trigger_pct cs)\<rfloor>
    in (compaction_applied a \<longleftrightarrow>
          compact_instructions cs \<noteq> [] \<and> est_prompt_tokens_before a \<ge> threshold)
       \<and> float_mul (py_float_of_int (max_context_tokens cs)) (compact_trigger_pct cs)
           = round_double (round_double (real_of_int (max_context_tokens cs)) * compact_trigger_pct cs)
       \<and> est_prompt_tokens_before a = estimate_tokens_for_messages assembled
       \<and> llm_messages a =
            (if compaction_applied a
             then insert_at 1 (system_message (strip (compact_instructions cs))) assembled
             else assembled)
       \<and> insert_at 1 (system_message (strip (compact_instructions cs))) assembled =
            system_message prompt # system_message (strip (compact_instructions cs))
            # history_messages history
       \<and> (max_context_tokens cs = 100 \<and> compact_trigger_pct cs = round_double (9 / 10) \<longrightarrow>
            threshold = 90
            \<and> (est_prompt_tokens_before a = 95 \<longrightarrow> compaction_applied a)
            \<and> (est_prompt_tokens_before a = 50 \<longrightarrow> \<not> compaction_applied a)))"
proof -
  define cs where "cs = fst (get_context_settings env default_pct now tbl)"
  define a where "a = assemble_messages prompt history cs"
  define assembled where "assembled = system_message prompt # history_messages history"
  define threshold where
    "threshold = \<lfloor>float_mul (py_float_of_int (max_context_tokens cs)) (compact_trigger_pct cs)\<rfloor>"
  have nb: "strip (compact_instructions cs) \<noteq> []"
    unfolding cs_def by (rule get_context_settings_nonblank)
  then have ne: "compact_instructions cs \<noteq> []"
    by (auto simp: strip_def)
  have before: "est_prompt_tokens_before a = estimate_tokens_for_messages assembled"
    unfolding a_def assembled_def by (rule assemble_messages_before)
  have one: "1 \<le> est_prompt_tokens_before a"
    unfolding before by (rule estimate_tokens_for_messages_ge_one)
  have applied: "compaction_applied a \<longleftrightarrow> threshold \<le> est_prompt_tokens_before a"
    using nb py_int_threshold_iff [OF one]
    unfolding threshold_def before unfolding a_def assembled_def
    by (simp add: assemble_messages_applied)
  have product: "float_mul (py_float_of_int (max_context_tokens cs)) (compact_trigger_pct cs)
      = round_double (round_double (real_of_int (max_context_tokens cs)) * compact_trigger_pct cs)"
    by (simp add: float_mul_def py_float_of_int_def)
  have ins: "insert_at 1 x assembled = system_message prompt # x # history_messages history" for x
    by (simp add: insert_at_def assembled_def)
  have msgs: "llm_messages a =
      (if compaction_applied a
       then insert_at 1 (system_message (strip (compact_instructions cs))) assembled
       else assembled)"
    unfolding ins unfolding a_def assembled_def by (rule assemble_messages_list)
  have ex: "threshold = 90
            \<and> (est_prompt_tokens_before a = 95 \<longrightarrow> compaction_applied a)
            \<and> (est_prompt_tokens_before a = 50 \<longrightarrow> \<not> compaction_applied a)"
    if "max_context_tokens cs = 100" and "compact_trigger_pct cs = round_double (9 / 10)"
  proof -
    have "py_int (float_mul (py_float_of_int 100) double_0_9) = 90"
      by (rule threshold_100)
    moreover have "(1::int) \<le> 90" by simp
    ultimately have "\<lfloor>float_mul (py_float_of_int 100) double_0_9\<rfloor> = 90"
      using py_int_threshold_iff [of 90 "float_mul (py_float_of_int 100) double_0_9"]
        py_int_threshold_iff [of 89 "float_mul (py_float_of_int 100) double_0_9"]
      by (simp add: py_int_def split: if_splits)
    with that have "threshold = 90"
      by (simp add: threshold_def double_0_9_nearest)
    then show ?thesis by (simp add: applied)
  qed
  from ne applied product before msgs ins ex show ?thesis
    unfolding Let_def cs_def [symmetric] assembled_def [symmetric] a_def [symmetric]
      threshold_def [symmetric]
    by blast
qed

theorem instructions_inserted_iff_threshold_reached_witness:
  "max_context_tokens (fst (get_context_settings example_env double_0_9 7 example_table)) = 100
   \<and> compact_trigger_pct (fst (get_context_settings example_env double_0_9 7 example_table))
       = round_double (9 / 10)
   \<and> est_prompt_tokens_before (assemble_messages ''P'' [example_turn 379 ''user'']
        (fst (get_context_settings example_env double_0_9 7 example_table))) = 95
   \<and> compaction_applied (assemble_messages ''P'' [example_turn 379 ''user'']
        (fst (get_context_settings example_env double_0_9 7 example_table)))
   \<and> est_prompt_tokens_before (assemble_messages ''P'' [example_turn 199 ''user'']
        (fst (get_context_settings example_env double_0_9 7 example_table))) = 50
   \<and> \<not> compaction_applied (assemble_messages ''P'' [example_turn 199 ''user'']
        (fst (get_context_settings example_env double_0_9 7 example_table)))"
proof -
  have fields: "max_context_tokens example_cs = 100
      \<and> compact_trigger_pct example_cs = round_double (9 / 10)"
    by (simp add: example_cs_fields double_0_9_nearest)
  have b95: "est_prompt_tokens_before (assemble_messages ''P'' [example_turn 379 ''user''] example_cs) = 95"
    and b50: "est_prompt_tokens_before (assemble_messages ''P'' [example_turn 199 ''user''] example_cs) = 50"
    by (simp_all add: example_before)
  from instructions_inserted_iff_threshold_reached
    [of example_env double_0_9 7 example_table "''P''" "[example_turn 379 ''user'']",
     unfolded Let_def example_settings] fields b95
  have yes: "compaction_applied (assemble_messages ''P'' [example_turn 379 ''user''] example_cs)"
    by blast
  from instructions_inserted_iff_threshold_reached
    [of example_env double_0_9 7 example_table "''P''" "[example_turn 199 ''user'']",
     unfolded Let_def example_settings] fields b50
  have no: "\<not> compaction_applied (assemble_messages ''P'' [example_turn 199 ''user''] example_cs)"
    by blast
  from fields b95 yes b50 no show ?thesis
    unfolding example_settings by blast
qed

lemma kept_length:
  assumes "2 < length (take 2 m @ drop (2 + j) m)"
  shows "length (take 2 m @ drop (2 + Suc j) m) < length (take 2 m @ drop (2 + j) m)"
    and "length (take 2 m @ drop (2 + j) m) + j = length m"
  using assms by (auto simp: min_def split: if_splits)

lemma kept_total:
  assumes "\<forall>j<k. loop_continues mx (take 2 m @ drop (2 + j) m)"
  shows "length (take 2 m @ drop (2 + k) m) + k = length m"
proof (cases k)
  case 0
  then show ?thesis by simp
next
  case (Suc i)
  with assms have "loop_continues mx (take 2 m @ drop (2 + i) m)" by simp
  then have "2 < length (take 2 m @ drop (2 + i) m)" by (simp add: loop_continues_def)
  then show ?thesis unfolding Suc by (auto simp: min_def split: if_splits)
qed

text \<open>
  C3. For every composed prompt, history and settings: the compacted list is not empty
  and its entry at index 0 is the composed system prompt; the assembled list is the prompt
  followed by the history, with at most one instruction message inserted between them; the
  loop removes \<open>k\<close> entries, each iteration makes the list strictly shorter, and it stops
  with at most two entries left or with an estimate that no longer exceeds
  \<open>max_context_tokens\<close>.
\<close>

theorem compaction_keeps_system_prompt_and_terminates:
  "(let a = assemble_messages prompt history cs;
        c = fst (compact_context prompt history cs);
        hist = history_messages history;
        instr = system_message (strip (compact_instructions cs))
    in llm_messages c \<noteq> [] \<and> llm_messages c ! 0 = system_message prompt
       \<and> (llm_messages a = system_message prompt # hist
            \<or> llm_messages a = system_message prompt # instr # hist)
       \<and> (\<exists>k. dropped_history_messages c = int k
             \<and> llm_messages c =
                 (if compaction_applied a then system_message prompt # instr # drop k hist
                  else system_message prompt # take 1 hist @ drop (Suc k) hist)
             \<and> length (llm_messages c) + k = length (llm_messages a)
             \<and> (\<forall>j<k. loop_continues (max_context_tokens cs)
                          (take 2 (llm_messages a) @ drop (2 + j) (llm_messages a))
                        \<and> length (take 2 (llm_messages a) @ drop (2 + Suc j) (llm_messages a))
                            < length (take 2 (llm_messages a) @ drop (2 + j) (llm_messages a))))
       \<and> (length (llm_messages c) \<le> 2
            \<or> estimate_tokens_for_messages (llm_messages c) \<le> max_context_tokens cs)
       \<and> snd (compact_context prompt history cs) = estimate_tokens_for_messages (llm_messages c))"
proof -
  define a where "a = assemble_messages prompt history cs"
  define c where "c = fst (compact_context prompt history cs)"
  define hist where "hist = history_messages history"
  define instr where "instr = system_message (strip (compact_instructions cs))"
  define kept where "kept j = take 2 (llm_messages a) @ drop (2 + j) (llm_messages a)" for j
  have shape: "llm_messages a =
      (if compaction_applied a then system_message prompt # instr # hist
       else system_message prompt # hist)"
    unfolding a_def instr_def hist_def by (rule assemble_messages_list)
  from compact_context_closed_form [of prompt history cs]
  obtain k where
    k: "dropped_history_messages c = int k" "llm_messages c = kept k"
       "\<forall>j<k. loop_continues (max_context_tokens cs) (kept j)"
       "\<not> loop_continues (max_context_tokens cs) (kept k)"
    unfolding a_def c_def kept_def by blast
  have final: "llm_messages c =
      (if compaction_applied a then system_message prompt # instr # drop k hist
       else system_message prompt # take 1 hist @ drop (Suc k) hist)"
    unfolding k(2) kept_def shape by (simp add: eval_nat_numeral)
  then have head: "llm_messages c \<noteq> []" "llm_messages c ! 0 = system_message prompt"
    by simp_all
  have total: "length (llm_messages c) + k = length (llm_messages a)"
    unfolding k(2) kept_def using k(3) unfolding kept_def by (rule kept_total)
  have decr: "loop_continues (max_context_tokens cs) (kept j)
      \<and> length (kept (Suc j)) < length (kept j)" if "j < k" for j
  proof -
    from k(3) that have g: "loop_continues (max_context_tokens cs) (kept j)" by blast
    then have "2 < length (kept j)" by (simp add: loop_continues_def)
    then have "length (kept (Suc j)) < length (kept j)"
      unfolding kept_def by (rule kept_length(1))
    with g show ?thesis ..
  qed
  from k(4) have stop: "length (llm_messages c) \<le> 2
      \<or> estimate_tokens_for_messages (llm_messages c) \<le> max_context_tokens cs"
    unfolding k(2) by (auto simp: loop_continues_def)
  have after: "snd (compact_context prompt history cs) = estimate_tokens_for_messages (llm_messages c)"
    unfolding c_def by (simp add: compact_context_def Let_def split_beta)
  from shape have one: "llm_messages a = system_message prompt # hist
      \<or> llm_messages a = system_message prompt # instr # hist"
    by (simp split: if_splits)
  from k(1) final total decr have ex: "\<exists>k. dropped_history_messages c = int k
             \<and> llm_messages c =
                 (if compaction_applied a then system_message prompt # instr # drop k hist
                  else system_message prompt # take 1 hist @ drop (Suc k) hist)
             \<and> length (llm_messages c) + k = length (llm_messages a)
             \<and> (\<forall>j<k. loop_continues (max_context_tokens cs) (kept j)
                        \<and> length (kept (Suc j)) < length (kept j))"
    by blast
  from head one ex stop after show ?thesis
    unfolding Let_def kept_def a_def [symmetric] c_def [symmetric] hist_def [symmetric]
      instr_def [symmetric]
    by blast
qed

theorem compaction_keeps_system_prompt_and_terminates_witness:
  "dropped_history_messages (fst (compact_context ''P'' example_history example_cs)) = 2
   \<and> (1::nat) < 2
   \<and> loop_continues (max_context_tokens example_cs)
        (take 2 (llm_messages (assemble_messages ''P'' example_history example_cs))
         @ drop (2 + 1) (llm_messages (assemble_messages ''P'' example_history example_cs)))
   \<and> length (take 2 (llm_messages (assemble_messages ''P'' example_history example_cs))
         @ drop (2 + Suc 1) (llm_messages (assemble_messages ''P'' example_history example_cs)))
       < length (take 2 (llm_messages (assemble_messages ''P'' example_history example_cs))
         @ drop (2 + 1) (llm_messages (assemble_messages ''P'' example_history example_cs)))
   \<and> llm_messages (fst (compact_context ''P'' example_history example_cs)) ! 0 = system_message ''P''
   \<and> length (llm_messages (fst (compact_context ''P'' example_history example_cs))) = 3
   \<and> estimate_tokens_for_messages (llm_messages (fst (compact_context ''P'' example_history example_cs)))
       \<le> max_context_tokens example_cs"
proof -
  let ?a = "assemble_messages ''P'' example_history example_cs"
  let ?c = "fst (compact_context ''P'' example_history example_cs)"
  note inst = compaction_keeps_system_prompt_and_terminates
    [of "''P''" example_history example_cs, unfolded Let_def]
  have two: "dropped_history_messages ?c = 2" and three: "length (llm_messages ?c) = 3"
    by (simp_all add: example_compacted)
  from inst have head: "llm_messages ?c ! 0 = system_message ''P''"
    by blast
  from inst three have stop: "estimate_tokens_for_messages (llm_messages ?c) \<le> max_context_tokens example_cs"
    by simp
  from inst obtain k where
    k: "dropped_history_messages ?c = int k"
       "\<forall>j<k. loop_continues (max_context_tokens example_cs)
                  (take 2 (llm_messages ?a) @ drop (2 + j) (llm_messages ?a))
               \<and> length (take 2 (llm_messages ?a) @ drop (2 + Suc j) (llm_messages ?a))
                   < length (take 2 (llm_messages ?a) @ drop (2 + j) (llm_messages ?a))"
    by blast
  from k(1) two have "(1::nat) < k" by simp
  with k(2) have "loop_continues (max_context_tokens example_cs)
                  (take 2 (llm_messages ?a) @ drop (2 + 1) (llm_messages ?a))
               \<and> length (take 2 (llm_messages ?a) @ drop (2 + Suc 1) (llm_messages ?a))
                   < length (take 2 (llm_messages ?a) @ drop (2 + 1) (llm_messages ?a))"
    by blast
  moreover have "(1::nat) < 2" by simp
  ultimately show ?thesis using two head three stop
    by blast
qed

section \<open>Baseline progress: properties\<close>

lemma append_baseline_event_calls [simp]:
  "completed_calls (append_baseline_event job m now) = completed_calls job"
  "total_calls (append_baseline_event job m now) = total_calls job"
  by (simp_all add: append_baseline_event_def Let_def)

lemma baseline_progress_total [simp]:
  "total_calls (baseline_progress job step inc now) = total_calls job"
  by (simp add: baseline_progress_def Let_def)

lemma baseline_progress_completed:
  "completed_calls (baseline_progress job step inc now) =
     (if inc > 0 then min (total_calls job) (completed_calls job + inc) else completed_calls job)"
  by (simp add: baseline_progress_def Let_def)

lemma start_baseline_job_calls [simp]:
  "completed_calls (start_baseline_job model enforce now) = 0"
  "total_calls (start_baseline_job model enforce now) = 34"
  by (simp_all add: start_baseline_job_def baseline_total_calls_def)

lemma progress_calls_total [simp]:
  "total_calls (progress_calls job calls) = total_calls job"
  by (induction job calls rule: progress_calls.induct) simp_all

lemma progress_calls_bounds:
  assumes "0 \<le> completed_calls job" and "completed_calls job \<le> total_calls job"
  shows "completed_calls job \<le> completed_calls (progress_calls job calls)
         \<and> completed_calls (progress_calls job calls) \<le> total_calls job"
  using assms
proof (induction job calls rule: progress_calls.induct)
  case (1 job)
  then show ?case by simp
next
  case (2 job step inc now rest)
  let ?j = "baseline_progress job step inc now"
  have a: "completed_calls job \<le> completed_calls ?j" and b: "completed_calls ?j \<le> total_calls ?j"
    using 2(2,3) by (simp_all add: baseline_progress_completed)
  with 2(2) have "0 \<le> completed_calls ?j" by linarith
  with 2(1) b have "completed_calls ?j \<le> completed_calls (progress_calls ?j rest)
         \<and> completed_calls (progress_calls ?j rest) \<le> total_calls ?j"
    by blast
  with a show ?case by simp
qed

lemma progress_calls_append:
  "progress_calls job (xs @ ys) = progress_calls (progress_calls job xs) ys"
  by (induction job xs rule: progress_calls.induct) simp_all

text \<open>
  C10. A job starts with \<open>completed_calls = 0\<close> and \<open>total_calls = 34\<close>. After any sequence
  of progress callbacks, whatever their increments, \<open>completed_calls\<close> lies between 0 and
  34, and it never decreases when further callbacks follow. A callback with a non-negative
  increment sets it to \<open>min(total_calls, completed_calls + increment)\<close>; one with an
  increment that is not positive leaves it as it is.
\<close>

theorem completed_calls_bounded_monotone:
  "completed_calls (start_baseline_job model enforce t0) = 0
   \<and> total_calls (progress_calls (start_baseline_job model enforce t0) calls) = 34
   \<and> 0 \<le> completed_calls (progress_calls (start_baseline_job model enforce t0) calls)
   \<and> completed_calls (progress_calls (start_baseline_job model enforce t0) calls) \<le> 34
   \<and> completed_calls (progress_calls (start_baseline_job model enforce t0) calls)
       \<le> completed_calls (progress_calls (start_baseline_job model enforce t0) (calls @ later))
   \<and> (0 \<le> inc \<longrightarrow>
        completed_calls (baseline_progress
            (progress_calls (start_baseline_job model enforce t0) calls) step inc now)
        = min (total_calls (progress_calls (start_baseline_job model enforce t0) calls))
              (completed_calls (progress_calls (start_baseline_job model enforce t0) calls) + inc))
   \<and> (inc \<le> 0 \<longrightarrow>
        completed_calls (baseline_progress
            (progress_calls (start_baseline_job model enforce t0) calls) step inc now)
        = completed_calls (progress_calls (start_baseline_job model enforce t0) calls))"
proof -
  let ?s = "start_baseline_job model enforce t0"
  let ?j = "progress_calls ?s calls"
  have b: "0 \<le> completed_calls ?j" "completed_calls ?j \<le> 34"
    using progress_calls_bounds [of ?s calls] by simp_all
  have m: "completed_calls ?j \<le> completed_calls (progress_calls ?s (calls @ later))"
    using b progress_calls_bounds [of ?j later] by (simp add: progress_calls_append)
  have u: "completed_calls (baseline_progress ?j step inc now)
        = min (total_calls ?j) (completed_calls ?j + inc)" if "0 \<le> inc"
    using that b by (simp add: baseline_progress_completed)
  have z: "completed_calls (baseline_progress ?j step inc now) = completed_calls ?j" if "inc \<le> 0"
    using that by (simp add: baseline_progress_completed)
  from b m u z show ?thesis by simp
qed

theorem completed_calls_bounded_monotone_witness:
  "(0::int) \<le> 40
   \<and> completed_calls (baseline_progress
        (progress_calls (start_baseline_job ''m'' True 0) [(''a'', 0, 1), (''a'', 1, 2)])
        ''b'' 40 3) = 34
   \<and> completed_calls (progress_calls (start_baseline_job ''m'' True 0) [(''a'', 0, 1), (''a'', 1, 2)]) = 1
   \<and> (0::int) \<le> 0
   \<and> completed_calls (baseline_progress
        (progress_calls (start_baseline_job ''m'' True 0) [(''a'', 0, 1), (''a'', 1, 2)])
        ''b'' 0 3) = 1"
proof -
  let ?j = "progress_calls (start_baseline_job ''m'' True 0) [(''a'', 0, 1), (''a'', 1, 2)]"
  have one: "completed_calls ?j = 1"
    by (simp add: baseline_progress_completed)
  from completed_calls_bounded_monotone [of "''m''" True 0 "[(''a'', 0, 1), (''a'', 1, 2)]" "[]" 40 "''b''" 3]
  have "completed_calls (baseline_progress ?j ''b'' 40 3) = min (total_calls ?j) (completed_calls ?j + 40)"
    by simp
  with one have over: "completed_calls (baseline_progress ?j ''b'' 40 3) = 34" by simp
  from completed_calls_bounded_monotone [of "''m''" True 0 "[(''a'', 0, 1), (''a'', 1, 2)]" "[]" 0 "''b''" 3]
  have "completed_calls (baseline_progress ?j ''b'' 0 3) = completed_calls ?j"
    by simp
  with one over show ?thesis by simp
qed

section \<open>Updating the context settings: properties\<close>

lemma double_0_1_nearest:
  "round_double (1 / 10) = 3602879701896397 / 2 ^ 55"
  "(1 / 10 :: real) < 3602879701896397 / 2 ^ 55"
  by (simp_all add: float_eval)

lemma validate_update_request_accepts_iff:
  "validate_update_request body = Inr body \<longleftrightarrow>
     field_in_range 256 262144 (req_max_context_tokens body)
     \<and> field_in_range 16 262144 (req_max_response_tokens body)
     \<and> field_in_range (1 / 10) 1 (req_compact_trigger_pct body)"
  by (simp add: validate_update_request_def)

lemma validate_update_request_cases:
  "validate_update_request body = Inr body \<or> validate_update_request body = Inl ValidationError"
  by (simp add: validate_update_request_def)

lemma update_context_settings_pct:
  "compact_trigger_pct (fst (update_context_settings tbl tenant mc mr (Some p) instr now)) = p"
  by (simp add: update_context_settings_def ensure_context_settings_def Let_def split_beta
        split: option.splits)

lemma update_context_settings_stored:
  "snd (update_context_settings tbl tenant mc mr pct instr now) tenant
     = Some (fst (update_context_settings tbl tenant mc mr pct instr now))"
  by (simp add: update_context_settings_def ensure_context_settings_def Let_def split_beta
        split: option.splits)

text \<open>
  C9, as stated, fails: a trigger fraction of 0.05 lies in the interval (0, 1] and the
  request is rejected, because the declared lower bound is 0.1.
\<close>

theorem update_rejected_below_one_tenth_counterexample:
  "(0::real) < 5 / 100 \<and> (5 / 100 :: real) \<le> 1
   \<and> patch_context_settings example_env 7 example_table
        \<lparr>req_max_context_tokens = None, req_max_response_tokens = None,
         req_compact_trigger_pct = Some (5 / 100), req_compact_instructions = None\<rparr>
       = (Inl ValidationError, example_table)"
  by (simp add: patch_context_settings_def validate_update_request_def field_in_range_def)

text \<open>
  C9, amended. An update whose fields are in range, with a trigger fraction in the closed
  interval [0.1, 1], is accepted and the fraction is stored for the tenant. An update is
  rejected with \<open>ValidationError\<close> exactly when one of its present fields is out of
  range: a fraction below 0.1 or above 1, a response limit below 16 or above 262144, a
  window below 256 or above 262144. Whenever the update is rejected the stored settings
  are unchanged.
\<close>

theorem update_accepts_tenth_to_one_rejects_before_mutation:
  "(field_in_range 256 262144 (req_max_context_tokens body)
      \<and> field_in_range 16 262144 (req_max_response_tokens body)
      \<and> req_compact_trigger_pct body = Some p \<and> 1 / 10 \<le> p \<and> p \<le> 1
    \<longrightarrow> (\<exists>current tbl'. patch_context_settings env now tbl body = (Inr current, tbl')
           \<and> compact_trigger_pct current = p
           \<and> tbl' (aigent_tenant_id env) = Some current))
   \<and> (req_compact_trigger_pct body = Some p \<and> (p < 1 / 10 \<or> 1 < p)
    \<longrightarrow> patch_context_settings env now tbl body = (Inl ValidationError, tbl))
   \<and> (isl (fst (patch_context_settings env now tbl body))
    \<longrightarrow> patch_context_settings env now tbl body = (Inl ValidationError, tbl))
   \<and> (req_max_response_tokens body = Some v \<and> (v < 16 \<or> 262144 < v)
    \<longrightarrow> patch_context_settings env now tbl body = (Inl ValidationError, tbl))
   \<and> (req_max_context_tokens body = Some c \<and> (c < 256 \<or> 262144 < c)
    \<longrightarrow> patch_context_settings env now tbl body = (Inl ValidationError, tbl))
   \<and> (isl (fst (patch_context_settings env now tbl body)) \<longleftrightarrow>
        \<not> ((case req_max_context_tokens body of None \<Rightarrow> True
              | Some x \<Rightarrow> 256 \<le> x \<and> x \<le> 262144)
           \<and> (case req_max_response_tokens body of None \<Rightarrow> True
              | Some x \<Rightarrow> 16 \<le> x \<and> x \<le> 262144)
           \<and> (case req_compact_trigger_pct body of None \<Rightarrow> True
              | Some x \<Rightarrow> 1 / 10 \<le> x \<and> x \<le> 1)))"
proof (intro conjI impI)
  assume a: "field_in_range 256 262144 (req_max_context_tokens body)
      \<and> field_in_range 16 262144 (req_max_response_tokens body)
      \<and> req_compact_trigger_pct body = Some p \<and> 1 / 10 \<le> p \<and> p \<le> 1"
  then have v: "validate_update_request body = Inr body"
    by (simp add: validate_update_request_accepts_iff field_in_range_def)
  let ?u = "update_context_settings tbl (aigent_tenant_id env)
              (Some (ollama_context_window env)) (req_max_response_tokens body)
              (Some p) (req_compact_instructions body) now"
  from v a have "patch_context_settings env now tbl body = (Inr (fst ?u), snd ?u)"
    by (simp add: patch_context_settings_def split_beta)
  moreover have "compact_trigger_pct (fst ?u) = p"
    by (rule update_context_settings_pct)
  moreover have "snd ?u (aigent_tenant_id env) = Some (fst ?u)"
    by (rule update_context_settings_stored)
  ultimately show "\<exists>current tbl'. patch_context_settings env now tbl body = (Inr current, tbl')
           \<and> compact_trigger_pct current = p
           \<and> tbl' (aigent_tenant_id env) = Some current"
    by blast
next
  assume "req_compact_trigger_pct body = Some p \<and> (p < 1 / 10 \<or> 1 < p)"
  then have "validate_update_request body = Inl ValidationError"
    by (auto simp: validate_update_request_def field_in_range_def)
  then show "patch_context_settings env now tbl body = (Inl ValidationError, tbl)"
    by (simp add: patch_context_settings_def)
next
  assume r: "isl (fst (patch_context_settings env now tbl body))"
  from validate_update_request_cases [of body] r
  show "patch_context_settings env now tbl body = (Inl ValidationError, tbl)"
    by (auto simp: patch_context_settings_def split_beta)
next
  assume "req_max_response_tokens body = Some v \<and> (v < 16 \<or> 262144 < v)"
  then have "validate_update_request body = Inl ValidationError"
    by (auto simp: validate_update_request_def field_in_range_def)
  then show "patch_context_settings env now tbl body = (Inl ValidationError, tbl)"
    by (simp add: patch_context_settings_def)
next
  assume "req_max_context_tokens body = Some c \<and> (c < 256 \<or> 262144 < c)"
  then have "validate_update_request body = Inl ValidationError"
    by (auto simp: validate_update_request_def field_in_range_def)
  then show "patch_context_settings env now tbl body = (Inl ValidationError, tbl)"
    by (simp add: patch_context_settings_def)
next
  have "isl (fst (patch_context_settings env now tbl body)) \<longleftrightarrow>
      validate_update_request body \<noteq> Inr body"
    using validate_update_request_cases [of body]
    by (auto simp: patch_context_settings_def split_beta)
  also have "\<dots> \<longleftrightarrow>
      \<not> (field_in_range 256 262144 (req_max_context_tokens body)
         \<and> field_in_range 16 262144 (req_max_response_tokens body)
         \<and> field_in_range (1 / 10) 1 (req_compact_trigger_pct body))"
    by (simp only: validate_update_request_accepts_iff)
  finally show "isl (fst (patch_context_settings env now tbl body)) \<longleftrightarrow>
        \<not> ((case req_max_context_tokens body of None \<Rightarrow> True
              | Some x \<Rightarrow> 256 \<le> x \<and> x \<le> 262144)
           \<and> (case req_max_response_tokens body of None \<Rightarrow> True
              | Some x \<Rightarrow> 16 \<le> x \<and> x \<le> 262144)
           \<and> (case req_compact_trigger_pct body of None \<Rightarrow> True
              | Some x \<Rightarrow> 1 / 10 \<le> x \<and> x \<le> 1))"
    by (simp only: field_in_range_def)
qed

theorem update_accepts_tenth_to_one_rejects_before_mutation_witness:
  "field_in_range 256 262144 (None :: int option)
   \<and> field_in_range 16 262144 (Some (64 :: int))
   \<and> (1 / 10 :: real) \<le> 1 / 2 \<and> (1 / 2 :: real) \<le> 1
   \<and> compact_trigger_pct (projr (fst (patch_context_settings example_env 7 example_table
        \<lparr>req_max_context_tokens = None, req_max_response_tokens = Some 64,
         req_compact_trigger_pct = Some (1 / 2), req_compact_instructions = None\<rparr>))) = 1 / 2
   \<and> ((3 / 2 :: real) < 1 / 10 \<or> (1 :: real) < 3 / 2)
   \<and> patch_context_settings example_env 7 example_table
        \<lparr>req_max_context_tokens = None, req_max_response_tokens = Some 64,
         req_compact_trigger_pct = Some (3 / 2), req_compact_instructions = None\<rparr>
       = (Inl ValidationError, example_table)
   \<and> ((1 :: int) < 16 \<or> (262144 :: int) < 1)
   \<and> patch_context_settings example_env 7 example_table
        \<lparr>req_max_context_tokens = None, req_max_response_tokens = Some 1,
         req_compact_trigger_pct = Some (1 / 2), req_compact_instructions = None\<rparr>
       = (Inl ValidationError, example_table)
   \<and> ((100 :: int) < 256 \<or> (262144 :: int) < 100)
   \<and> patch_context_settings example_env 7 example_table
        \<lparr>req_max_context_tokens = Some 100, req_max_response_tokens = None,
         req_compact_trigger_pct = None, req_compact_instructions = None\<rparr>
       = (Inl ValidationError, example_table)
   \<and> isl (fst (patch_context_settings example_env 7 example_table
        \<lparr>req_max_context_tokens = Some 100, req_max_response_tokens = None,
         req_compact_trigger_pct = None, req_compact_instructions = None\<rparr>))"
proof -
  let ?low = "\<lparr>req_max_context_tokens = None, req_max_response_tokens = Some 1,
         req_compact_trigger_pct = Some (1 / 2 :: real), req_compact_instructions = None\<rparr>"
  let ?win = "\<lparr>req_max_context_tokens = Some 100, req_max_response_tokens = None,
         req_compact_trigger_pct = (None :: real option), req_compact_instructions = None\<rparr>"
  have h3: "req_max_response_tokens ?low = Some 1 \<and> ((1 :: int) < 16 \<or> (262144 :: int) < 1)"
    by simp
  have h4: "req_max_context_tokens ?win = Some 100 \<and> ((100 :: int) < 256 \<or> (262144 :: int) < 100)"
    by simp
  note low_inst = update_accepts_tenth_to_one_rejects_before_mutation
    [of ?low "1 / 2" example_env 7 example_table 1]
  note win_inst = update_accepts_tenth_to_one_rejects_before_mutation
    [of ?win 0 example_env 7 example_table 0 100]
  from low_inst [THEN conjunct2, THEN conjunct2, THEN conjunct2, THEN conjunct1] h3
  have low: "patch_context_settings example_env 7 example_table ?low
      = (Inl ValidationError, example_table)"
    by (rule mp)
  from win_inst [THEN conjunct2, THEN conjunct2, THEN conjunct2, THEN conjunct2, THEN conjunct1] h4
  have win: "patch_context_settings example_env 7 example_table ?win
      = (Inl ValidationError, example_table)"
    by (rule mp)
  then have winl: "isl (fst (patch_context_settings example_env 7 example_table ?win))"
    by simp
  from win_inst [THEN conjunct2, THEN conjunct2, THEN conjunct1] winl
  have "patch_context_settings example_env 7 example_table ?win
      = (Inl ValidationError, example_table)"
    by (rule mp)
  have small: "((1 :: int) < 16 \<or> (262144 :: int) < 1)
      \<and> ((100 :: int) < 256 \<or> (262144 :: int) < 100)"
    by simp
  let ?ok = "\<lparr>req_max_context_tokens = None, req_max_response_tokens = Some 64,
         req_compact_trigger_pct = Some (1 / 2 :: real), req_compact_instructions = None\<rparr>"
  let ?bad = "\<lparr>req_max_context_tokens = None, req_max_response_tokens = Some 64,
         req_compact_trigger_pct = Some (3 / 2 :: real), req_compact_instructions = None\<rparr>"
  have r: "field_in_range 256 262144 (None :: int option)"
    "field_in_range 16 262144 (Some (64 :: int))"
    by (simp_all add: field_in_range_def)
  have h1: "field_in_range 256 262144 (req_max_context_tokens ?ok)
      \<and> field_in_range 16 262144 (req_max_response_tokens ?ok)
      \<and> req_compact_trigger_pct ?ok = Some (1 / 2) \<and> 1 / 10 \<le> (1 / 2 :: real) \<and> (1 / 2 :: real) \<le> 1"
    by (simp add: field_in_range_def)
  have h2: "req_compact_trigger_pct ?bad = Some (3 / 2) \<and> ((3 / 2 :: real) < 1 / 10 \<or> 1 < (3 / 2 :: real))"
    by simp
  note ok_inst = update_accepts_tenth_to_one_rejects_before_mutation
    [of ?ok "1 / 2" example_env 7 example_table]
  note bad_inst = update_accepts_tenth_to_one_rejects_before_mutation
    [of ?bad "3 / 2" example_env 7 example_table]
  from ok_inst [THEN conjunct1, rule_format, OF h1]
  obtain current tbl' where
    "patch_context_settings example_env 7 example_table ?ok = (Inr current, tbl')"
    "compact_trigger_pct current = 1 / 2"
    by blast
  then have ok: "compact_trigger_pct (projr (fst (patch_context_settings example_env 7 example_table ?ok))) = 1 / 2"
    by simp
  from bad_inst [THEN conjunct2, THEN conjunct1, rule_format, OF h2]
  have bad: "patch_context_settings example_env 7 example_table ?bad = (Inl ValidationError, example_table)" .
  have "(1 / 10 :: real) \<le> 1 / 2 \<and> (1 / 2 :: real) \<le> 1
      \<and> ((3 / 2 :: real) < 1 / 10 \<or> (1 :: real) < 3 / 2)"
    by simp
  with r ok bad low win winl small show ?thesis by blast
qed

section \<open>Prompt composer: properties\<close>

lemma comprehension_map_filter:
  "[f c. c \<leftarrow> xs, P c] = map f (filter P xs)"
  by (induction xs) simp_all

lemma compose_system_prompt_alt:
  "compose_system_prompt cs =
     (if filter survives (sort_key pc_order cs) = [] then fallback_prompt
      else join_str blank_line (map (\<lambda>c. strip (pc_content c)) (filter survives (sort_key pc_order cs))))"
proof -
  have "(\<lambda>c. pc_enabled c \<and> strip (pc_content c) \<noteq> []) = survives"
    by (simp add: survives_def fun_eq_iff)
  then show ?thesis
    by (simp add: compose_system_prompt_def comprehension_map_filter Let_def)
qed

lemma join_str_nonempty:
  assumes "xs \<noteq> []" and "\<forall>x\<in>set xs. x \<noteq> []"
  shows "join_str sep xs \<noteq> []"
  using assms by (induction sep xs rule: join_str.induct) simp_all

lemma fallback_prompt_nonempty: "fallback_prompt \<noteq> []"
  by (simp add: fallback_prompt_def)

lemma compose_system_prompt_nonempty: "compose_system_prompt cs \<noteq> []"
proof (cases "filter survives (sort_key pc_order cs) = []")
  case True
  then show ?thesis
    by (simp add: compose_system_prompt_alt fallback_prompt_nonempty)
next
  case False
  let ?parts = "map (\<lambda>c. strip (pc_content c)) (filter survives (sort_key pc_order cs))"
  have "\<forall>x\<in>set ?parts. x \<noteq> []" by (auto simp: survives_def)
  moreover from False have "?parts \<noteq> []" by simp
  ultimately have "join_str blank_line ?parts \<noteq> []" by (intro join_str_nonempty)
  with False show ?thesis by (simp add: compose_system_prompt_alt)
qed

text \<open>
  C5. \<open>compose_system_prompt\<close> takes the components in ascending \<open>order\<close>, keeps those
  that are enabled and whose trimmed content is not empty (the same components as in the
  input, as a multiset), and joins their trimmed contents with an empty line between
  them. When none survives, in particular for the empty list and when every component is
  disabled, the result is the fallback sentence; the result is never empty.
\<close>

theorem compose_system_prompt_sorted_filtered_joined:
  "(let kept = filter survives (sort_key pc_order components)
    in compose_system_prompt components =
         (if kept = [] then fallback_prompt
          else join_str blank_line (map (\<lambda>c. strip (pc_content c)) kept))
       \<and> sorted (map pc_order kept)
       \<and> mset kept = mset (filter survives components)
       \<and> (\<forall>c\<in>set kept. pc_enabled c \<and> strip (pc_content c) \<noteq> []))
   \<and> ((\<forall>c\<in>set components. \<not> pc_enabled c) \<longrightarrow>
        compose_system_prompt components = ''You are a helpful local AI assistant.'')
   \<and> ((\<forall>c\<in>set components. \<not> survives c) \<longrightarrow>
        compose_system_prompt components = ''You are a helpful local AI assistant.'')
   \<and> compose_system_prompt [] = ''You are a helpful local AI assistant.''
   \<and> compose_system_prompt components \<noteq> []"
proof -
  define kept where "kept = filter survives (sort_key pc_order components)"
  have eq: "compose_system_prompt components =
         (if kept = [] then fallback_prompt
          else join_str blank_line (map (\<lambda>c. strip (pc_content c)) kept))"
    unfolding kept_def by (rule compose_system_prompt_alt)
  have srt: "sorted (map pc_order kept)"
    unfolding kept_def by (intro sorted_filter) simp
  have ms: "mset kept = mset (filter survives components)"
    unfolding kept_def by (simp add: mset_filter)
  have surv: "\<forall>c\<in>set kept. pc_enabled c \<and> strip (pc_content c) \<noteq> []"
    unfolding kept_def by (auto simp: survives_def)
  have none: "compose_system_prompt components = ''You are a helpful local AI assistant.''"
    if "\<forall>c\<in>set components. \<not> survives c"
  proof -
    from that have "filter survives components = []" by (simp add: filter_empty_conv)
    with ms have "kept = []" by simp
    with eq show ?thesis by (simp add: fallback_prompt_def)
  qed
  have disabled: "compose_system_prompt components = ''You are a helpful local AI assistant.''"
    if "\<forall>c\<in>set components. \<not> pc_enabled c"
    using that by (intro none) (simp add: survives_def)
  have empty: "compose_system_prompt [] = ''You are a helpful local AI assistant.''"
    by (simp add: compose_system_prompt_alt fallback_prompt_def)
  from eq srt ms surv none disabled empty compose_system_prompt_nonempty [of components]
  show ?thesis unfolding Let_def kept_def [symmetric] by blast
qed

lemma strip_examples:
  "strip '' Alpha '' = ''Alpha''" "strip ''Beta'' = ''Beta''" "strip ''   '' = []"
  "strip ''Gamma'' = ''Gamma''"
  by (simp_all add: strip_def py_isspace_def)

theorem compose_system_prompt_sorted_filtered_joined_witness:
  "compose_system_prompt
     [example_component ''b'' 2 True ''Beta'', example_component ''c'' 3 False ''Gamma'',
      example_component ''a'' 1 True '' Alpha '', example_component ''z'' 0 True ''   '']
     = ''Alpha'' @ [CHR 0x0A, CHR 0x0A] @ ''Beta''
   \<and> \<not> pc_enabled (example_component ''c'' 3 False ''Gamma'')
   \<and> \<not> pc_enabled (example_component ''a'' 1 False ''Alpha'')
   \<and> compose_system_prompt
       [example_component ''c'' 3 False ''Gamma'', example_component ''a'' 1 False ''Alpha'']
     = ''You are a helpful local AI assistant.''"
proof -
  let ?cs = "[example_component ''b'' 2 True ''Beta'', example_component ''c'' 3 False ''Gamma'',
      example_component ''a'' 1 True '' Alpha '', example_component ''z'' 0 True ''   '']"
  let ?ds = "[example_component ''c'' 3 False ''Gamma'', example_component ''a'' 1 False ''Alpha'']"
  have kept: "filter survives (sort_key pc_order ?cs) =
      [example_component ''a'' 1 True '' Alpha '', example_component ''b'' 2 True ''Beta'']"
    by (simp add: survives_def example_component_def strip_examples)
  from compose_system_prompt_sorted_filtered_joined [of ?cs, unfolded Let_def, THEN conjunct1, THEN conjunct1]
  have "compose_system_prompt ?cs = ''Alpha'' @ [CHR 0x0A, CHR 0x0A] @ ''Beta''"
    unfolding kept by (simp add: example_component_def strip_examples blank_line_def)
  moreover have off: "\<forall>c\<in>set ?ds. \<not> pc_enabled c"
    by (simp add: example_component_def)
  moreover from compose_system_prompt_sorted_filtered_joined
      [of ?ds, THEN conjunct2, THEN conjunct1] off
  have "compose_system_prompt ?ds = ''You are a helpful local AI assistant.''" by (rule mp)
  moreover have "\<not> pc_enabled (example_component ''c'' 3 False ''Gamma'')"
    and "\<not> pc_enabled (example_component ''a'' 1 False ''Alpha'')"
    by (simp_all add: example_component_def)
  ultimately show ?thesis by blast
qed

section \<open>Prompt profiles: properties\<close>

lemma deactivate_tenant_ids [simp]: "map pp_id (deactivate_tenant tenant rows) = map pp_id rows"
  by (simp add: deactivate_tenant_def)

lemma activate_prompt_profile_not_found:
  "fst (activate_prompt_profile rows tenant pid now) = False \<Longrightarrow>
     activate_prompt_profile rows tenant pid now = (False, rows)"
  by (simp add: activate_prompt_profile_def split: option.splits)

lemma find_SomeD: "find P xs = Some x \<Longrightarrow> x \<in> set xs \<and> P x"
  by (induction xs) (auto split: if_splits)

lemma activate_prompt_profile_ok_iff:
  "fst (activate_prompt_profile rows tenant pid now) \<longleftrightarrow>
     (\<exists>r\<in>set rows. pp_id r = pid \<and> pp_tenant_id r = tenant)"
proof (cases "find (\<lambda>r. pp_id r = pid \<and> pp_tenant_id r = tenant) rows")
  case None
  then have "\<not> (\<exists>r\<in>set rows. pp_id r = pid \<and> pp_tenant_id r = tenant)"
    by (simp add: find_None_iff)
  with None show ?thesis by (simp add: activate_prompt_profile_def)
next
  case (Some x)
  from find_SomeD [OF Some] have "\<exists>r\<in>set rows. pp_id r = pid \<and> pp_tenant_id r = tenant"
    by blast
  with Some show ?thesis by (simp add: activate_prompt_profile_def)
qed

lemma length_filter_key_distinct:
  assumes "distinct (map f xs)" and "k \<in> f ` set xs"
  shows "length (filter (\<lambda>x. f x = k) xs) = 1"
proof -
  have "length (filter (\<lambda>x. f x = k) xs) = length (filter (\<lambda>i. i = k) (map f xs))"
    by (simp add: filter_map comp_def)
  also have "\<dots> = card ({i. i = k} \<inter> set (map f xs))"
    using assms(1) by (rule distinct_length_filter)
  also from assms(2) have "{i. i = k} \<inter> set (map f xs) = {k}" by auto
  finally show ?thesis by simp
qed

lemma activate_prompt_profile_exactly_one:
  assumes d: "distinct (map pp_id rows)"
    and ok: "activate_prompt_profile rows tenant pid now = (True, rows')"
  shows "\<forall>r\<in>set rows'. pp_tenant_id r = tenant \<longrightarrow> (pp_is_active r \<longleftrightarrow> pp_id r = pid)"
    and "map pp_id (active_profiles tenant rows') = [pid]"
proof -
  define g where "g r =
      (let r1 = (if pp_tenant_id r = tenant then r\<lparr>pp_is_active := False\<rparr> else r)
       in if pp_id r1 = pid then r1\<lparr>pp_is_active := True, pp_updated_at := now\<rparr> else r1)"
    for r :: profile_row
  have g_id: "pp_id (g r) = pp_id r" and g_tenant: "pp_tenant_id (g r) = pp_tenant_id r"
    and g_active: "pp_tenant_id r = tenant \<Longrightarrow> pp_is_active (g r) \<longleftrightarrow> pp_id r = pid" for r
    by (simp_all add: g_def Let_def)
  from ok have "fst (activate_prompt_profile rows tenant pid now)" by simp
  then obtain x where x: "x \<in> set rows" "pp_id x = pid" "pp_tenant_id x = tenant"
    unfolding activate_prompt_profile_ok_iff by blast
  from ok have "rows' =
      map (\<lambda>r. if pp_id r = pid then r\<lparr>pp_is_active := True, pp_updated_at := now\<rparr> else r)
        (deactivate_tenant tenant rows)"
    by (simp add: activate_prompt_profile_def split: option.splits)
  then have rows': "rows' = map g rows"
    by (simp add: deactivate_tenant_def g_def Let_def comp_def)
  have ids: "map pp_id rows' = map pp_id rows"
    unfolding rows' by (simp add: comp_def g_id)
  have uniq: "pp_tenant_id r = tenant" if "r \<in> set rows" "pp_id r = pid" for r
  proof -
    from d have "inj_on pp_id (set rows)" by (simp add: distinct_map)
    with that x have "r = x" by (auto dest: inj_onD)
    with x show ?thesis by simp
  qed
  show a: "\<forall>r\<in>set rows'. pp_tenant_id r = tenant \<longrightarrow> (pp_is_active r \<longleftrightarrow> pp_id r = pid)"
  proof (intro ballI impI)
    fix r assume "r \<in> set rows'" and t: "pp_tenant_id r = tenant"
    then obtain r0 where r0: "r0 \<in> set rows" "r = g r0" unfolding rows' by auto
    with t have "pp_tenant_id r0 = tenant" by (simp add: g_tenant)
    then show "pp_is_active r \<longleftrightarrow> pp_id r = pid"
      unfolding r0(2) by (simp add: g_active g_id)
  qed
  have b: "pp_tenant_id r = tenant" if "r \<in> set rows'" "pp_id r = pid" for r
  proof -
    from that(1) obtain r0 where r0: "r0 \<in> set rows" "r = g r0" unfolding rows' by auto
    with that(2) have "pp_id r0 = pid" by (simp add: g_id)
    with r0(1) have "pp_tenant_id r0 = tenant" by (rule uniq)
    then show ?thesis unfolding r0(2) by (simp add: g_tenant)
  qed
  have "active_profiles tenant rows' = filter (\<lambda>r. pp_id r = pid) rows'"
    unfolding active_profiles_def
  proof (rule filter_cong [OF refl])
    fix r assume "r \<in> set rows'"
    with a b show "(pp_tenant_id r = tenant \<and> pp_is_active r) = (pp_id r = pid)" by blast
  qed
  moreover have "length (filter (\<lambda>r. pp_id r = pid) rows') = 1"
  proof (rule length_filter_key_distinct)
    from d show "distinct (map pp_id rows')" by (simp only: ids)
    from x have "pid \<in> set (map pp_id rows)" by force
    then have "pid \<in> set (map pp_id rows')" by (simp only: ids)
    then show "pid \<in> pp_id ` set rows'" by simp
  qed
  ultimately have "length (active_profiles tenant rows') = 1"
    and "\<forall>r\<in>set (active_profiles tenant rows'). pp_id r = pid"
    by simp_all
  then show "map pp_id (active_profiles tenant rows') = [pid]"
    by (cases "active_profiles tenant rows'") auto
qed

lemma activate_endpoint_not_found:
  assumes "\<not> (\<exists>r\<in>set rows. pp_id r = pid \<and> pp_tenant_id r = tenant)"
  shows "activate_endpoint rows tenant pid fresh now = (Inl NotFound, rows)"
proof -
  from assms have "fst (activate_prompt_profile rows tenant pid now) = False"
    by (simp add: activate_prompt_profile_ok_iff)
  then have "activate_prompt_profile rows tenant pid now = (False, rows)"
    by (rule activate_prompt_profile_not_found)
  then show ?thesis by (simp add: activate_endpoint_def)
qed

text \<open>
  C7 asks that after a successful activation the profile with the given id is the one
  active profile of the tenant. The store operation does that
  (\<open>activate_prompt_profile_exactly_one\<close>), and an unknown id gives \<open>NotFound\<close> with the
  table unchanged (\<open>activate_endpoint_not_found\<close>). The handler, however, reads the active
  profile back through \<open>get_active_prompt_profile\<close>, whose call of
  \<open>ensure_default_prompt_profile\<close> finds the default profile inactive and activates it
  again: with a default profile \<open>d\<close> and a second profile \<open>b\<close>, activating \<open>b\<close>
  succeeds, answers with \<open>d\<close>, and leaves \<open>d\<close> active and \<open>b\<close> inactive.
\<close>

theorem activate_endpoint_reactivates_default:
  "activate_prompt_profile
     [example_profile ''d'' True True, example_profile ''b'' False False] ''default'' ''b'' 5
   = (True, [example_profile ''d'' True False,
             (example_profile ''b'' False True)\<lparr>pp_updated_at := 5\<rparr>])
   \<and> activate_endpoint
       [example_profile ''d'' True True, example_profile ''b'' False False] ''default'' ''b'' ''n'' 5
     = (Inr \<lparr>resp_id = ''d'', resp_name = ''d'', resp_is_active = True, resp_is_default = True\<rparr>,
        [example_profile ''d'' True True,
         (example_profile ''b'' False False)\<lparr>pp_updated_at := 5\<rparr>])"
  by (simp add: activate_endpoint_def activate_prompt_profile_def get_active_prompt_profile_def
      ensure_default_prompt_profile_def deactivate_tenant_def example_profile_def
      stored_profile_def Let_def)

section \<open>Effective prompt components: properties\<close>

lemma new_PromptComponent_without_file_path:
  "new_PromptComponent i n None c ord e s = Inl TypeError"
  by (simp add: new_PromptComponent_def split: option.splits)

lemma merge_components_no_override:
  "\<forall>c\<in>set defaults. ovs (pc_id c) = None \<Longrightarrow>
     merge_components ovs defaults merged = Inr (merged @ defaults)"
  by (induction defaults arbitrary: merged) simp_all

lemma merge_components_override_raises:
  "\<exists>c\<in>set defaults. ovs (pc_id c) \<noteq> None \<Longrightarrow>
     merge_components ovs defaults merged = Inl TypeError"
proof (induction defaults arbitrary: merged)
  case Nil
  then show ?case by simp
next
  case (Cons item rest)
  show ?case
  proof (cases "ovs (pc_id item)")
    case None
    with Cons.prems have "\<exists>c\<in>set rest. ovs (pc_id c) \<noteq> None" by auto
    with None Cons.IH show ?thesis by simp
  next
    case (Some ov)
    then show ?thesis by (simp add: new_PromptComponent_without_file_path)
  qed
qed

lemma reset_prompt_profile_overrides:
  "get_prompt_overrides (reset_prompt_profile st pid now) pid = Map.empty"
  by (simp add: get_prompt_overrides_def reset_prompt_profile_def fun_eq_iff)

lemmas example_prompt_defs =
  effective_system_prompt_def effective_prompt_components_def update_prompt_component_def
  reset_prompts_def reset_prompt_profile_def upsert_prompt_override_def touch_profile_def
  get_prompt_overrides_def get_active_prompt_profile_def ensure_default_prompt_profile_def
  new_PromptComponent_def stored_profile_def example_store_def example_profile_def
  example_defaults_def example_component_def

lemma example_compose:
  "compose_system_prompt
     [example_component ''a'' 0 True ''Alpha'', example_component ''b'' 1 True ''Beta'']
     = ''Alpha'' @ [CHR 0x0A, CHR 0x0A] @ ''Beta''"
  by (simp add: compose_system_prompt_def example_component_def
      strip_def py_isspace_def blank_line_def)

lemma example_prompt_before:
  "effective_system_prompt example_defaults example_store ''default'' ''n1'' 1
     = Inr (''Alpha'' @ [CHR 0x0A, CHR 0x0A] @ ''Beta'')"
  using example_compose by (simp add: example_prompt_defs Let_def)

lemma example_update:
  "update_prompt_component example_defaults example_store ''default'' ''a'' None (Some False) ''n2'' 2
     = (Inl (Unhandled TypeError), example_overridden)"
  by (simp add: example_prompt_defs example_overridden_def Let_def)

lemma example_prompt_overridden:
  "effective_system_prompt example_defaults example_overridden ''default'' ''n3'' 3 = Inl TypeError"
  by (simp add: example_prompt_defs example_overridden_def Let_def)

lemma example_prompt_reset:
  "effective_system_prompt example_defaults
     (snd (reset_prompts example_overridden ''default'' ''n4'' 4)) ''default'' ''n5'' 5
     = Inr (''Alpha'' @ [CHR 0x0A, CHR 0x0A] @ ''Beta'')"
  using example_compose by (simp add: example_prompt_defs example_overridden_def Let_def)

lemma effective_prompt_components_override_raises:
  assumes "get_active_prompt_profile (profiles st) tenant fresh now = (Inr p, rows)"
    and "\<exists>c\<in>set defaults. overrides st (sp_id p, pc_id c) \<noteq> None"
  shows "fst (effective_prompt_components defaults st tenant fresh now) = Inl TypeError"
proof -
  from assms(2)
  have "\<exists>c\<in>set defaults. get_prompt_overrides (st\<lparr>profiles := rows\<rparr>) (sp_id p) (pc_id c) \<noteq> None"
    by (simp add: get_prompt_overrides_def)
  then have "merge_components (get_prompt_overrides (st\<lparr>profiles := rows\<rparr>) (sp_id p)) defaults []
      = Inl TypeError"
    by (rule merge_components_override_raises)
  with assms(1) show ?thesis
    by (simp add: effective_prompt_components_def Let_def)
qed

lemma effective_prompt_components_after_reset:
  assumes "get_active_prompt_profile (profiles (reset_prompt_profile st pid t)) tenant fresh now
             = (Inr p, rows)"
    and "sp_id p = pid"
  shows "fst (effective_prompt_components defaults (reset_prompt_profile st pid t) tenant fresh now)
           = Inr (p, defaults)"
proof -
  have "get_prompt_overrides ((reset_prompt_profile st pid t)\<lparr>profiles := rows\<rparr>) pid = Map.empty"
    by (simp add: get_prompt_overrides_def reset_prompt_profile_def fun_eq_iff)
  then have "merge_components
      (get_prompt_overrides ((reset_prompt_profile st pid t)\<lparr>profiles := rows\<rparr>) pid) defaults []
      = Inr defaults"
    by (simp add: merge_components_no_override)
  with assms show ?thesis
    by (simp add: effective_prompt_components_def Let_def)
qed

text \<open>
  C8 asks that an override with \<open>enabled = false\<close> takes the component out of the
  composed prompt. With the defaults \<open>a\<close> and \<open>b\<close>, the prompt is first
  \<open>Alpha\<close>, an empty line, \<open>Beta\<close>. Disabling \<open>a\<close> stores the override and then
  fails with \<open>TypeError\<close>, and so does every later composition, because the merged
  component is constructed without \<open>file_path\<close>
  (\<open>effective_prompt_components_override_raises\<close>): no prompt without \<open>a\<close> is ever
  composed. The reset deletes the override, and the prompt is again the first one.
\<close>

theorem override_disable_raises_type_error:
  "effective_system_prompt example_defaults example_store ''default'' ''n1'' 1
     = Inr (''Alpha'' @ [CHR 0x0A, CHR 0x0A] @ ''Beta'')
   \<and> update_prompt_component example_defaults example_store ''default'' ''a'' None (Some False) ''n2'' 2
     = (Inl (Unhandled TypeError), example_overridden)
   \<and> effective_system_prompt example_defaults example_overridden ''default'' ''n3'' 3 = Inl TypeError
   \<and> effective_system_prompt example_defaults
       (snd (reset_prompts example_overridden ''default'' ''n4'' 4)) ''default'' ''n5'' 5
     = Inr (''Alpha'' @ [CHR 0x0A, CHR 0x0A] @ ''Beta'')"
  using example_prompt_before example_update example_prompt_overridden example_prompt_reset
  by blast

section \<open>Baseline orchestrator: properties\<close>

lemma on_progress_calls [simp]: "rs_calls (on_progress clock step inc st) = rs_calls st"
  by (simp add: on_progress_def)

lemma call_backend_calls [simp]:
  "rs_calls (snd (call_backend llm ms cap st)) = Suc (rs_calls st)"
  by (simp add: call_backend_def)

lemma call_backend_fst [simp]:
  "fst (call_backend llm ms cap st) = llm (rs_calls st) ms cap"
  by (simp add: call_backend_def)

lemma single_call_result_calls [simp]:
  "bc_calls (single_call_result cid label payload ms completion latency) = 1"
  by (simp add: single_call_result_def split_beta)

lemma run_single_turn_case_ok:
  assumes "run_single_turn_case llm clock prompt cid label instr n cap st = (Inr c, st')"
  shows "bc_calls c = 1 \<and> rs_calls st' = Suc (rs_calls st)"
  using assms
  by (auto simp: run_single_turn_case_def Let_def split_beta split: sum.splits)

lemma run_system_prompt_pressure_case_ok:
  assumes "run_system_prompt_pressure_case llm clock prompt cid label sn un cap st = (Inr c, st')"
  shows "bc_calls c = 1 \<and> rs_calls st' = Suc (rs_calls st)"
  using assms
  by (auto simp: run_system_prompt_pressure_case_def Let_def split_beta split: sum.splits)

lemma multi_turn_loop_ok:
  assumes "multi_turn_loop llm clock label cap n idx targets acc st = (Inr acc', st')"
  shows "length (mt_per_turn_latency_ms acc') = length (mt_per_turn_latency_ms acc) + length targets
         \<and> rs_calls st' = rs_calls st + length targets"
  using assms
proof (induction targets arbitrary: idx acc st)
  case Nil
  then show ?case by simp
next
  case (Cons target rest)
  let ?step = "label @ '' (turn '' @ str_nat (idx + 1) @ ''/'' @ str_nat n @ '')''"
  let ?st1 = "on_progress clock ?step 0 st"
  let ?payload = "build_user_payload target (label @ '' turn '' @ str_nat (idx + 1))"
  let ?ms = "mt_messages acc @ [\<lparr>role = ''user'', content = ?payload\<rparr>]"
  obtain answer st2 where cb: "call_backend llm ?ms cap ?st1 = (answer, st2)"
    by (cases "call_backend llm ?ms cap ?st1")
  then have calls2: "rs_calls st2 = Suc (rs_calls st)"
    using call_backend_calls [of llm ?ms cap ?st1] by simp
  show ?case
  proof (cases answer)
    case (Inl err)
    with Cons.prems cb show ?thesis by (simp add: Let_def)
  next
    case (Inr res)
    obtain completion latency where res: "res = (completion, latency)" by (cases res)
    obtain p c t where tok: "call_tokens ?ms completion = (p, c, t)"
      by (cases "call_tokens ?ms completion")
    let ?acc = "\<lparr>mt_messages = ?ms @ [\<lparr>role = ''assistant'', content = cr_content completion\<rparr>],
        mt_prompt_total = mt_prompt_total acc + p,
        mt_completion_total = mt_completion_total acc + c,
        mt_token_total = mt_token_total acc + t,
        mt_latency_total = mt_latency_total acc + latency,
        mt_per_turn_latency_ms = mt_per_turn_latency_ms acc @ [latency],
        mt_per_turn_prompt_tokens = mt_per_turn_prompt_tokens acc @ [p],
        mt_per_turn_completion_tokens = mt_per_turn_completion_tokens acc @ [c],
        mt_input_total = mt_input_total acc + estimate_tokens_for_text ?payload\<rparr>"
    from Cons.prems cb Inr res tok
    have "multi_turn_loop llm clock label cap n (Suc idx) rest ?acc (on_progress clock ?step 1 st2)
        = (Inr acc', st')"
      by (simp add: Let_def)
    from Cons.IH [OF this] calls2 show ?thesis by simp
  qed
qed

lemma run_multi_turn_case_ok:
  assumes "run_multi_turn_case llm clock prompt cid label instr targets cap st = (Inr c, st')"
  shows "bc_calls c = int (length targets)
         \<and> (\<exists>l. bc_per_turn_latency_ms c = Some l \<and> length l = length targets)
         \<and> rs_calls st' = rs_calls st + length targets"
proof -
  let ?acc0 = "\<lparr>mt_messages = [system_message prompt, system_message instr],
      mt_prompt_total = 0, mt_completion_total = 0, mt_token_total = 0,
      mt_latency_total = 0, mt_per_turn_latency_ms = [],
      mt_per_turn_prompt_tokens = [], mt_per_turn_completion_tokens = [],
      mt_input_total = 0\<rparr>"
  obtain outcome st1 where
    loop: "multi_turn_loop llm clock label cap (length targets) 0 targets ?acc0 st = (outcome, st1)"
    by (cases "multi_turn_loop llm clock label cap (length targets) 0 targets ?acc0 st")
  show ?thesis
  proof (cases outcome)
    case (Inl err)
    with assms loop show ?thesis by (simp add: run_multi_turn_case_def Let_def)
  next
    case (Inr acc)
    from multi_turn_loop_ok [OF loop [unfolded Inr]]
    have "length (mt_per_turn_latency_ms acc) = length targets"
      and "rs_calls st1 = rs_calls st + length targets"
      by simp_all
    with assms loop Inr show ?thesis
      by (auto simp: run_multi_turn_case_def Let_def)
  qed
qed

lemma run_cases_unit:
  assumes "\<forall>f\<in>set fs. unit_case f" and "run_cases fs st = (Inr cs, st')"
  shows "length cs = length fs \<and> sum_list (map bc_calls cs) = int (length fs)
         \<and> rs_calls st' = rs_calls st + length fs"
  using assms
proof (induction fs arbitrary: st cs st')
  case Nil
  then show ?case by simp
next
  case (Cons f fs)
  obtain r1 st1 where f: "f st = (r1, st1)" by (cases "f st")
  with Cons.prems(2) obtain c where c: "r1 = Inr c"
    by (cases r1) simp_all
  obtain r2 st2 where rest: "run_cases fs st1 = (r2, st2)" by (cases "run_cases fs st1")
  with Cons.prems(2) f c obtain cs' where cs': "r2 = Inr cs'"
    by (cases r2) simp_all
  from Cons.prems(2) f c rest cs' have eq: "cs = c # cs'" "st' = st2" by simp_all
  from Cons.prems(1) f c have u: "bc_calls c = 1" "rs_calls st1 = Suc (rs_calls st)"
    by (auto simp: unit_case_def)
  from Cons.IH [of st1 cs' st2] Cons.prems(1) rest cs'
  have "length cs' = length fs \<and> sum_list (map bc_calls cs') = int (length fs)
         \<and> rs_calls st2 = rs_calls st1 + length fs"
    by simp
  with eq u show ?case by simp
qed

lemma run_cases_single:
  assumes "run_cases [f] st = (Inr cs, st')"
  shows "\<exists>c. cs = [c] \<and> f st = (Inr c, st')"
  using assms by (auto split: prod.splits sum.splits)

lemma unit_case_single [simp]:
  "unit_case (run_single_turn_case llm clock prompt cid label instr n cap)"
  unfolding unit_case_def using run_single_turn_case_ok by blast

lemma unit_case_system [simp]:
  "unit_case (run_system_prompt_pressure_case llm clock prompt cid label sn un cap)"
  unfolding unit_case_def using run_system_prompt_pressure_case_ok by blast

lemma length_runs [simp]:
  "length (simple_qa_runs llm clock prompt cap) = 3"
  "length (summarization_runs llm clock prompt cap) = 4"
  "length (extraction_runs llm clock prompt cap) = 1"
  "length (system_prompt_runs llm clock prompt cap) = 6"
  by (simp_all add: simple_qa_runs_def summarization_runs_def extraction_runs_def
      system_prompt_runs_def system_prompt_targets_def)

lemma unit_runs:
  "\<forall>f\<in>set (simple_qa_runs llm clock prompt cap). unit_case f"
  "\<forall>f\<in>set (summarization_runs llm clock prompt cap). unit_case f"
  "\<forall>f\<in>set (extraction_runs llm clock prompt cap). unit_case f"
  "\<forall>f\<in>set (system_prompt_runs llm clock prompt cap). unit_case f"
  by (auto simp: simple_qa_runs_def summarization_runs_def extraction_runs_def
      system_prompt_runs_def)

lemma length_multi_turn_targets: "length multi_turn_targets = 20"
  by (simp add: multi_turn_targets_def)

lemma multi_turn_targets_nth:
  "i < 20 \<Longrightarrow> multi_turn_targets ! i = 50 + (int i * 17) mod 151"
  by (simp add: multi_turn_targets_def)

lemma execute_baseline_groups:
  assumes "execute_baseline llm clock prompt cap model duration st = (Inr r, st')"
  obtains qa st1 su st2 mt st3 ex st4 sy where
    "run_cases (simple_qa_runs llm clock prompt cap) st = (Inr qa, st1)"
    "run_cases (summarization_runs llm clock prompt cap) st1 = (Inr su, st2)"
    "run_cases (multi_turn_runs llm clock prompt cap) st2 = (Inr mt, st3)"
    "run_cases (extraction_runs llm clock prompt cap) st3 = (Inr ex, st4)"
    "run_cases (system_prompt_runs llm clock prompt cap) st4 = (Inr sy, st')"
    "map cat_id (run_categories r) =
          [''simple_qa'', ''summarization'', ''multi_turn'', ''structured_extraction'',
           ''system_prompt_pressure'']"
    "map cat_cases (run_categories r) = [qa, su, mt, ex, sy]"
    "run_total_calls r = sum_list (map bc_calls (qa @ su @ mt @ ex @ sy))"
proof -
  obtain a1 st1 where g1: "run_cases (simple_qa_runs llm clock prompt cap) st = (a1, st1)"
    by (cases "run_cases (simple_qa_runs llm clock prompt cap) st")
  with assms obtain qa where a1: "a1 = Inr qa"
    by (cases a1) (simp_all add: execute_baseline_def)
  obtain a2 st2 where g2: "run_cases (summarization_runs llm clock prompt cap) st1 = (a2, st2)"
    by (cases "run_cases (summarization_runs llm clock prompt cap) st1")
  with assms g1 a1 obtain su where a2: "a2 = Inr su"
    by (cases a2) (simp_all add: execute_baseline_def)
  obtain a3 st3 where g3: "run_cases (multi_turn_runs llm clock prompt cap) st2 = (a3, st3)"
    by (cases "run_cases (multi_turn_runs llm clock prompt cap) st2")
  with assms g1 a1 g2 a2 obtain mt where a3: "a3 = Inr mt"
    by (cases a3) (simp_all add: execute_baseline_def)
  obtain a4 st4 where g4: "run_cases (extraction_runs llm clock prompt cap) st3 = (a4, st4)"
    by (cases "run_cases (extraction_runs llm clock prompt cap) st3")
  with assms g1 a1 g2 a2 g3 a3 obtain ex where a4: "a4 = Inr ex"
    by (cases a4) (simp_all add: execute_baseline_def)
  obtain a5 st5 where g5: "run_cases (system_prompt_runs llm clock prompt cap) st4 = (a5, st5)"
    by (cases "run_cases (system_prompt_runs llm clock prompt cap) st4")
  with assms g1 a1 g2 a2 g3 a3 g4 a4 obtain sy where a5: "a5 = Inr sy"
    by (cases a5) (simp_all add: execute_baseline_def)
  from assms g1 a1 g2 a2 g3 a3 g4 a4 g5 a5
  have "map cat_id (run_categories r) =
          [''simple_qa'', ''summarization'', ''multi_turn'', ''structured_extraction'',
           ''system_prompt_pressure'']"
    and "map cat_cases (run_categories r) = [qa, su, mt, ex, sy]"
    and "run_total_calls r = sum_list (map bc_calls (qa @ su @ mt @ ex @ sy))"
    and st': "st' = st5"
    by (auto simp: execute_baseline_def Let_def)
  with g1 a1 g2 a2 g3 a3 g4 a4 g5 a5 show ?thesis
    by (intro that [of qa st1 su st2 mt st3 ex st4 sy]) simp_all
qed

lemma user_payload_loop_reaches_target:
  "target \<le> estimate_tokens_for_text (user_payload_loop target seed payload)"
proof (induction target seed payload rule: user_payload_loop.induct)
  case (1 target seed payload)
  show ?case
  proof (cases "estimate_tokens_for_text payload < target")
    case True
    with 1 show ?thesis by (subst user_payload_loop.simps) simp
  next
    case False
    then show ?thesis by (subst user_payload_loop.simps) simp
  qed
qed

lemma build_user_payload_reaches_target:
  "target \<le> estimate_tokens_for_text (build_user_payload target seed)"
  by (simp add: build_user_payload_def user_payload_loop_reaches_target)

lemma multi_turn_loop_input_total:
  assumes "multi_turn_loop llm clock label cap n idx targets acc st = (Inr acc', st')"
  shows "mt_input_total acc + sum_list targets \<le> mt_input_total acc'"
  using assms
proof (induction targets arbitrary: idx acc st)
  case Nil
  then show ?case by simp
next
  case (Cons target rest)
  let ?step = "label @ '' (turn '' @ str_nat (idx + 1) @ ''/'' @ str_nat n @ '')''"
  let ?st1 = "on_progress clock ?step 0 st"
  let ?payload = "build_user_payload target (label @ '' turn '' @ str_nat (idx + 1))"
  let ?ms = "mt_messages acc @ [\<lparr>role = ''user'', content = ?payload\<rparr>]"
  obtain answer st2 where cb: "call_backend llm ?ms cap ?st1 = (answer, st2)"
    by (cases "call_backend llm ?ms cap ?st1")
  show ?case
  proof (cases answer)
    case (Inl err)
    with Cons.prems cb show ?thesis by (simp add: Let_def)
  next
    case (Inr res)
    obtain completion latency where res: "res = (completion, latency)" by (cases res)
    obtain p c t where tok: "call_tokens ?ms completion = (p, c, t)"
      by (cases "call_tokens ?ms completion")
    let ?acc = "\<lparr>mt_messages = ?ms @ [\<lparr>role = ''assistant'', content = cr_content completion\<rparr>],
        mt_prompt_total = mt_prompt_total acc + p,
        mt_completion_total = mt_completion_total acc + c,
        mt_token_total = mt_token_total acc + t,
        mt_latency_total = mt_latency_total acc + latency,
        mt_per_turn_latency_ms = mt_per_turn_latency_ms acc @ [latency],
        mt_per_turn_prompt_tokens = mt_per_turn_prompt_tokens acc @ [p],
        mt_per_turn_completion_tokens = mt_per_turn_completion_tokens acc @ [c],
        mt_input_total = mt_input_total acc + estimate_tokens_for_text ?payload\<rparr>"
    from Cons.prems cb Inr res tok
    have "multi_turn_loop llm clock label cap n (Suc idx) rest ?acc (on_progress clock ?step 1 st2)
        = (Inr acc', st')"
      by (simp add: Let_def)
    from Cons.IH [OF this]
    have "mt_input_total acc + estimate_tokens_for_text ?payload + sum_list rest
        \<le> mt_input_total acc'"
      by simp
    moreover have "target \<le> estimate_tokens_for_text ?payload"
      by (rule build_user_payload_reaches_target)
    ultimately show ?thesis by simp
  qed
qed

lemma run_multi_turn_case_input:
  assumes "run_multi_turn_case llm clock prompt cid label instr targets cap st = (Inr c, st')"
  shows "sum_list targets \<le> bc_input_tokens_est c"
proof -
  let ?acc0 = "\<lparr>mt_messages = [system_message prompt, system_message instr],
      mt_prompt_total = 0, mt_completion_total = 0, mt_token_total = 0,
      mt_latency_total = 0, mt_per_turn_latency_ms = [],
      mt_per_turn_prompt_tokens = [], mt_per_turn_completion_tokens = [],
      mt_input_total = 0\<rparr>"
  obtain outcome st1 where
    loop: "multi_turn_loop llm clock label cap (length targets) 0 targets ?acc0 st = (outcome, st1)"
    by (cases "multi_turn_loop llm clock label cap (length targets) 0 targets ?acc0 st")
  show ?thesis
  proof (cases outcome)
    case (Inl err)
    with assms loop show ?thesis by (simp add: run_multi_turn_case_def Let_def)
  next
    case (Inr acc)
    from multi_turn_loop_input_total [OF loop [unfolded Inr]]
    have "sum_list targets \<le> mt_input_total acc" by simp
    with assms loop Inr show ?thesis
      by (auto simp: run_multi_turn_case_def Let_def)
  qed
qed


lemma backend_answer:
  assumes "\<forall>n ms cap. \<not> isl (llm n ms cap)"
  shows "\<exists>completion latency. llm n ms cap = Inr (completion, latency)"
proof -
  from assms have "\<not> isl (llm n ms cap)" by blast
  then obtain res where "llm n ms cap = Inr res" by (cases "llm n ms cap") simp_all
  then show ?thesis by (cases res) simp
qed

lemma run_single_turn_case_returns:
  assumes "\<forall>n ms cap. \<not> isl (llm n ms cap)"
  shows "always_returns (run_single_turn_case llm clock prompt cid label instr n cap)"
  unfolding always_returns_def
proof
  fix s
  let ?payload = "build_user_payload n (label @ '' input'')"
  let ?ms = "[system_message prompt, system_message instr, \<lparr>role = ''user'', content = ?payload\<rparr>]"
  from backend_answer [OF assms]
  obtain completion latency where
    "llm (rs_calls (on_progress clock label 0 s)) ?ms cap = Inr (completion, latency)"
    by blast
  then show "\<exists>c s'. run_single_turn_case llm clock prompt cid label instr n cap s = (Inr c, s')"
    by (simp add: run_single_turn_case_def call_backend_def Let_def)
qed

lemma run_system_prompt_pressure_case_returns:
  assumes "\<forall>n ms cap. \<not> isl (llm n ms cap)"
  shows "always_returns (run_system_prompt_pressure_case llm clock prompt cid label sn un cap)"
  unfolding always_returns_def
proof
  fix s
  let ?sys = "build_system_payload sn (label @ '' system context'')"
  let ?payload = "build_user_payload un (label @ '' user input'')"
  let ?ms = "[system_message prompt, system_message ?sys, \<lparr>role = ''user'', content = ?payload\<rparr>]"
  from backend_answer [OF assms]
  obtain completion latency where
    "llm (rs_calls (on_progress clock label 0 s)) ?ms cap = Inr (completion, latency)"
    by blast
  then show "\<exists>c s'. run_system_prompt_pressure_case llm clock prompt cid label sn un cap s = (Inr c, s')"
    by (simp add: run_system_prompt_pressure_case_def call_backend_def Let_def)
qed

lemma multi_turn_loop_returns:
  assumes "\<forall>n ms cap. \<not> isl (llm n ms cap)"
  shows "\<exists>acc' st'. multi_turn_loop llm clock label cap n idx targets acc st = (Inr acc', st')"
proof (induction targets arbitrary: idx acc st)
  case Nil
  then show ?case by simp
next
  case (Cons target rest)
  let ?step = "label @ '' (turn '' @ str_nat (idx + 1) @ ''/'' @ str_nat n @ '')''"
  let ?st1 = "on_progress clock ?step 0 st"
  let ?payload = "build_user_payload target (label @ '' turn '' @ str_nat (idx + 1))"
  let ?ms = "mt_messages acc @ [\<lparr>role = ''user'', content = ?payload\<rparr>]"
  from backend_answer [OF assms]
  obtain completion latency where
    ans: "llm (rs_calls ?st1) ?ms cap = Inr (completion, latency)"
    by blast
  obtain p c t where tok: "call_tokens ?ms completion = (p, c, t)"
    by (cases "call_tokens ?ms completion")
  from ans tok Cons.IH show ?case
    by (simp add: call_backend_def Let_def)
qed

lemma run_multi_turn_case_returns:
  assumes "\<forall>n ms cap. \<not> isl (llm n ms cap)"
  shows "always_returns (run_multi_turn_case llm clock prompt cid label instr targets cap)"
  unfolding always_returns_def
proof
  fix s
  let ?acc0 = "\<lparr>mt_messages = [system_message prompt, system_message instr],
      mt_prompt_total = 0, mt_completion_total = 0, mt_token_total = 0,
      mt_latency_total = 0, mt_per_turn_latency_ms = [],
      mt_per_turn_prompt_tokens = [], mt_per_turn_completion_tokens = [],
      mt_input_total = 0\<rparr>"
  from multi_turn_loop_returns [OF assms]
  obtain acc' st' where
    "multi_turn_loop llm clock label cap (length targets) 0 targets ?acc0 s = (Inr acc', st')"
    by blast
  then show "\<exists>c s'. run_multi_turn_case llm clock prompt cid label instr targets cap s = (Inr c, s')"
    by (simp add: run_multi_turn_case_def Let_def)
qed

lemma run_cases_returns:
  assumes "\<forall>f\<in>set fs. always_returns f"
  shows "\<exists>cs st'. run_cases fs st = (Inr cs, st')"
  using assms
proof (induction fs arbitrary: st)
  case Nil
  then show ?case by simp
next
  case (Cons f fs)
  then obtain c st1 where f: "f st = (Inr c, st1)"
    unfolding always_returns_def by (metis list.set_intros(1))
  from Cons obtain cs st2 where "run_cases fs st1 = (Inr cs, st2)"
    by (metis list.set_intros(2))
  with f show ?case by simp
qed

lemma execute_baseline_returns:
  assumes ok: "\<forall>n ms cap. \<not> isl (llm n ms cap)"
  shows "\<exists>r st'. execute_baseline llm clock prompt cap model duration st = (Inr r, st')"
proof -
  note single = run_single_turn_case_returns [OF ok]
  note sys = run_system_prompt_pressure_case_returns [OF ok]
  note multi = run_multi_turn_case_returns [OF ok]
  have a: "\<forall>f\<in>set (simple_qa_runs llm clock prompt cap). always_returns f"
    "\<forall>f\<in>set (summarization_runs llm clock prompt cap). always_returns f"
    "\<forall>f\<in>set (multi_turn_runs llm clock prompt cap). always_returns f"
    "\<forall>f\<in>set (extraction_runs llm clock prompt cap). always_returns f"
    "\<forall>f\<in>set (system_prompt_runs llm clock prompt cap). always_returns f"
    by (auto simp: simple_qa_runs_def summarization_runs_def multi_turn_runs_def
        extraction_runs_def system_prompt_runs_def single sys multi)
  from run_cases_returns [OF a(1)] obtain qa st1 where
    g1: "run_cases (simple_qa_runs llm clock prompt cap) st = (Inr qa, st1)" by blast
  from run_cases_returns [OF a(2)] obtain su st2 where
    g2: "run_cases (summarization_runs llm clock prompt cap) st1 = (Inr su, st2)" by blast
  from run_cases_returns [OF a(3)] obtain mt st3 where
    g3: "run_cases (multi_turn_runs llm clock prompt cap) st2 = (Inr mt, st3)" by blast
  from run_cases_returns [OF a(4)] obtain ex st4 where
    g4: "run_cases (extraction_runs llm clock prompt cap) st3 = (Inr ex, st4)" by blast
  from run_cases_returns [OF a(5)] obtain sy st5 where
    g5: "run_cases (system_prompt_runs llm clock prompt cap) st4 = (Inr sy, st5)" by blast
  from g1 g2 g3 g4 g5 show ?thesis
    by (simp add: execute_baseline_def Let_def)
qed

lemma execute_baseline_shape:
  assumes run: "execute_baseline llm clock prompt cap model duration st = (Inr r, st')"
  shows "run_total_calls r = 34"
    and "map cat_id (run_categories r) =
          [''simple_qa'', ''summarization'', ''multi_turn'', ''structured_extraction'',
           ''system_prompt_pressure'']"
    and "map (\<lambda>c. length (cat_cases c)) (run_categories r) = [3, 4, 1, 1, 6]"
    and "rs_calls st' = rs_calls st + 34"
    and "\<exists>mt l. cat_cases (run_categories r ! 2) = [mt] \<and> bc_calls mt = 20
           \<and> bc_per_turn_latency_ms mt = Some l \<and> length l = 20
           \<and> sum_list multi_turn_targets \<le> bc_input_tokens_est mt"
proof -
  from run obtain qa st1 su st2 mt st3 ex st4 sy where
    g1: "run_cases (simple_qa_runs llm clock prompt cap) st = (Inr qa, st1)"
    and g2: "run_cases (summarization_runs llm clock prompt cap) st1 = (Inr su, st2)"
    and g3: "run_cases (multi_turn_runs llm clock prompt cap) st2 = (Inr mt, st3)"
    and g4: "run_cases (extraction_runs llm clock prompt cap) st3 = (Inr ex, st4)"
    and g5: "run_cases (system_prompt_runs llm clock prompt cap) st4 = (Inr sy, st')"
    and ids: "map cat_id (run_categories r) =
          [''simple_qa'', ''summarization'', ''multi_turn'', ''structured_extraction'',
           ''system_prompt_pressure'']"
    and cases: "map cat_cases (run_categories r) = [qa, su, mt, ex, sy]"
    and total: "run_total_calls r = sum_list (map bc_calls (qa @ su @ mt @ ex @ sy))"
    by (rule execute_baseline_groups)
  from run_cases_unit [OF unit_runs(1) g1]
  have qa: "length qa = 3" "sum_list (map bc_calls qa) = 3" "rs_calls st1 = rs_calls st + 3"
    by simp_all
  from run_cases_unit [OF unit_runs(2) g2]
  have su: "length su = 4" "sum_list (map bc_calls su) = 4" "rs_calls st2 = rs_calls st1 + 4"
    by simp_all
  from run_cases_unit [OF unit_runs(3) g4]
  have ex: "length ex = 1" "sum_list (map bc_calls ex) = 1" "rs_calls st4 = rs_calls st3 + 1"
    by simp_all
  from run_cases_unit [OF unit_runs(4) g5]
  have sy: "length sy = 6" "sum_list (map bc_calls sy) = 6" "rs_calls st' = rs_calls st4 + 6"
    by simp_all
  from run_cases_single [OF g3 [unfolded multi_turn_runs_def]]
  obtain m where m: "mt = [m]"
    and mrun: "run_multi_turn_case llm clock prompt ''mt_20x_50_200''
        ''20-turn conversation (50-200 user tokens/turn)''
        ''Maintain consistency across turns and preserve key decisions while answering each turn concisely.''
        multi_turn_targets cap st2 = (Inr m, st3)"
    by blast
  from run_multi_turn_case_ok [OF mrun]
  obtain l where mt: "bc_calls m = 20" "bc_per_turn_latency_ms m = Some l" "length l = 20"
    "rs_calls st3 = rs_calls st2 + 20"
    by (auto simp: length_multi_turn_targets)
  from total qa su ex sy m mt show "run_total_calls r = 34" by simp
  from ids show "map cat_id (run_categories r) =
          [''simple_qa'', ''summarization'', ''multi_turn'', ''structured_extraction'',
           ''system_prompt_pressure'']" .
  have "map (\<lambda>c. length (cat_cases c)) (run_categories r) = map length (map cat_cases (run_categories r))"
    by (simp add: comp_def)
  with cases qa su ex sy m
  show "map (\<lambda>c. length (cat_cases c)) (run_categories r) = [3, 4, 1, 1, 6]" by simp
  from qa su ex sy mt show "rs_calls st' = rs_calls st + 34" by simp
  from cases have "length (map cat_cases (run_categories r)) = length [qa, su, mt, ex, sy]"
    by (rule arg_cong)
  then have "length (run_categories r) = 5"
    by simp
  then have "cat_cases (run_categories r ! 2) = map cat_cases (run_categories r) ! 2"
    by simp
  with cases m have "cat_cases (run_categories r ! 2) = [m]" by simp
  with mt run_multi_turn_case_input [OF mrun]
  show "\<exists>mt l. cat_cases (run_categories r ! 2) = [mt] \<and> bc_calls mt = 20
           \<and> bc_per_turn_latency_ms mt = Some l \<and> length l = 20
           \<and> sum_list multi_turn_targets \<le> bc_input_tokens_est mt"
    by blast
qed

text \<open>
  C6. A job is created with \<open>total_calls = 34\<close>. Every run that completes, whatever the
  backend returns, reports \<open>total_calls = 34\<close> and has made exactly 34 backend calls; its
  categories are, in this order, simple Q/A, summarization, multi-turn, structured
  extraction and system-prompt pressure, with 3, 4, 1, 1 and 6 cases. The multi-turn case
  runs over the 20 targets \<open>50 + (i * 17) mod 151\<close>, \<open>i = 0 \<dots> 19\<close>: it counts 20 calls,
  has 20 per-turn latency entries, and its input estimate is at least the sum of the
  targets. A run completes whenever the backend never raises.
\<close>

theorem baseline_run_calls_and_categories:
  "total_calls (start_baseline_job model enforce t0) = 34
   \<and> baseline_total_calls = 34
   \<and> (execute_baseline llm clock prompt cap model duration st = (Inr r, st') \<longrightarrow>
        run_total_calls r = 34
        \<and> map cat_id (run_categories r) =
             [''simple_qa'', ''summarization'', ''multi_turn'', ''structured_extraction'',
              ''system_prompt_pressure'']
        \<and> map (\<lambda>c. length (cat_cases c)) (run_categories r) = [3, 4, 1, 1, 6]
        \<and> rs_calls st' = rs_calls st + 34
        \<and> (\<exists>mt l. cat_cases (run_categories r ! 2) = [mt] \<and> bc_calls mt = 20
              \<and> bc_per_turn_latency_ms mt = Some l \<and> length l = 20
              \<and> sum_list multi_turn_targets \<le> bc_input_tokens_est mt))
   \<and> multi_turn_runs llm clock prompt cap =
        [run_multi_turn_case llm clock prompt ''mt_20x_50_200''
           ''20-turn conversation (50-200 user tokens/turn)''
           ''Maintain consistency across turns and preserve key decisions while answering each turn concisely.''
           (map (\<lambda>i. 50 + (int i * 17) mod 151) [0..<20]) cap]
   \<and> length multi_turn_targets = 20
   \<and> (\<forall>i<20. multi_turn_targets ! i = 50 + (int i * 17) mod 151)
   \<and> ((\<forall>n msgs k. \<not> isl (llm n msgs k)) \<longrightarrow>
        \<not> isl (fst (execute_baseline llm clock prompt cap model duration st)))"
proof -
  have job: "total_calls (start_baseline_job model enforce t0) = 34" "baseline_total_calls = 34"
    by (simp_all add: baseline_total_calls_def)
  have shape: "run_total_calls r = 34
        \<and> map cat_id (run_categories r) =
             [''simple_qa'', ''summarization'', ''multi_turn'', ''structured_extraction'',
              ''system_prompt_pressure'']
        \<and> map (\<lambda>c. length (cat_cases c)) (run_categories r) = [3, 4, 1, 1, 6]
        \<and> rs_calls st' = rs_calls st + 34
        \<and> (\<exists>mt l. cat_cases (run_categories r ! 2) = [mt] \<and> bc_calls mt = 20
              \<and> bc_per_turn_latency_ms mt = Some l \<and> length l = 20
              \<and> sum_list multi_turn_targets \<le> bc_input_tokens_est mt)"
    if "execute_baseline llm clock prompt cap model duration st = (Inr r, st')"
    using execute_baseline_shape [OF that] by (intro conjI)
  have runs: "multi_turn_runs llm clock prompt cap =
        [run_multi_turn_case llm clock prompt ''mt_20x_50_200''
           ''20-turn conversation (50-200 user tokens/turn)''
           ''Maintain consistency across turns and preserve key decisions while answering each turn concisely.''
           (map (\<lambda>i. 50 + (int i * 17) mod 151) [0..<20]) cap]"
    by (simp only: multi_turn_runs_def multi_turn_targets_def concat_map_singleton)
  have returns: "\<not> isl (fst (execute_baseline llm clock prompt cap model duration st))"
    if "\<forall>n msgs k. \<not> isl (llm n msgs k)"
  proof -
    from execute_baseline_returns [OF that]
    obtain r' s' where "execute_baseline llm clock prompt cap model duration st = (Inr r', s')"
      by blast
    then show ?thesis by simp
  qed
  from job shape runs length_multi_turn_targets multi_turn_targets_nth returns
  show ?thesis by blast
qed

theorem baseline_run_calls_and_categories_witness:
  "\<not> isl (fst (execute_baseline example_backend (\<lambda>n. n) ''P'' (Some 512) ''m'' 1000
       \<lparr>rs_job = start_baseline_job ''m'' True 0, rs_calls = 0\<rparr>))
   \<and> run_total_calls (projr (fst (execute_baseline example_backend (\<lambda>n. n) ''P'' (Some 512) ''m'' 1000
       \<lparr>rs_job = start_baseline_job ''m'' True 0, rs_calls = 0\<rparr>))) = 34
   \<and> rs_calls (snd (execute_baseline example_backend (\<lambda>n. n) ''P'' (Some 512) ''m'' 1000
       \<lparr>rs_job = start_baseline_job ''m'' True 0, rs_calls = 0\<rparr>)) = 34
   \<and> (7::nat) < 20
   \<and> multi_turn_targets ! 7 = 169"
proof -
  let ?st = "\<lparr>rs_job = start_baseline_job ''m'' True 0, rs_calls = 0\<rparr>"
  let ?e = "execute_baseline example_backend (\<lambda>n. n) ''P'' (Some 512) ''m'' 1000 ?st"
  note inst = baseline_run_calls_and_categories
    [of "''m''" True 0 example_backend "\<lambda>n. n" "''P''" "Some 512" 1000 ?st
        "projr (fst ?e)" "snd ?e"]
  have ok: "\<forall>n msgs k. \<not> isl (example_backend n msgs k)"
    by (simp add: example_backend_def)
  with inst have ni: "\<not> isl (fst ?e)" by blast
  then have "?e = (Inr (projr (fst ?e)), snd ?e)"
    by (cases ?e) (auto simp: isl_def)
  with inst have "run_total_calls (projr (fst ?e)) = 34"
    and "rs_calls (snd ?e) = rs_calls ?st + 34"
    by blast+
  moreover have seven: "(7::nat) < 20" by simp
  moreover from inst have "\<forall>i<20. multi_turn_targets ! i = 50 + (int i * 17) mod 151"
    by blast
  with seven have "multi_turn_targets ! 7 = 50 + (int 7 * 17) mod 151" by blast
  then have "multi_turn_targets ! 7 = 169" by simp
  ultimately show ?thesis using ni by simp
qed

end
